theory Spec2Isabelle
  imports Complex_Main "HOL-Library.Multiset"
begin

section \<open>JavaScript strings\<close>

text \<open>
  A JavaScript string is modelled as a list of characters, one \<^typ>\<open>char\<close> per code unit,
  so \<open>length\<close> is the source's \<open>.length\<close>. Case mapping is that of the code units up to
  255 (the letters A-Z and the accented capitals \<open>0xC0\<close>-\<open>0xDE\<close> without the multiplication
  sign \<open>0xD7\<close> have their lower-case form 32 places up); \<open>toUpperCase\<close> leaves the sharp s
  \<open>0xDF\<close>, the micro sign \<open>0xB5\<close> and the y with diaeresis \<open>0xFF\<close> as they are, since their
  upper-case forms lie beyond 255. \<open>\w\<close> is \<open>[A-Za-z0-9_]\<close>, as in a JavaScript regular
  expression without the unicode flag. Numbers are modelled exactly: counts and scores
  that the source keeps integral as \<^typ>\<open>int\<close> or \<^typ>\<open>nat\<close>, the others as \<^typ>\<open>real\<close>. The
  weight loop of the knowledge algorithms is given a second time with every addition and
  division passed through a rounding function, to cover double arithmetic.
\<close>

definition charCode :: "char \<Rightarrow> nat" where
  "charCode c = of_char c"

definition isUpperChar :: "char \<Rightarrow> bool" where
  "isUpperChar c \<longleftrightarrow> 65 \<le> charCode c \<and> charCode c \<le> 90"

definition isLowerChar :: "char \<Rightarrow> bool" where
  "isLowerChar c \<longleftrightarrow> 97 \<le> charCode c \<and> charCode c \<le> 122"

definition isDigitChar :: "char \<Rightarrow> bool" where
  "isDigitChar c \<longleftrightarrow> 48 \<le> charCode c \<and> charCode c \<le> 57"

definition isWordChar :: "char \<Rightarrow> bool" where
  "isWordChar c \<longleftrightarrow> isLowerChar c \<or> isUpperChar c \<or> isDigitChar c \<or> c = CHR ''_''"

definition isSpaceChar :: "char \<Rightarrow> bool" where
  "isSpaceChar c \<longleftrightarrow> charCode c \<in> {9, 10, 11, 12, 13, 32, 160}"

definition hasLowerCase :: "char \<Rightarrow> bool" where
  "hasLowerCase c \<longleftrightarrow>
     isUpperChar c \<or> (192 \<le> charCode c \<and> charCode c \<le> 222 \<and> charCode c \<noteq> 215)"

definition hasUpperCase :: "char \<Rightarrow> bool" where
  "hasUpperCase c \<longleftrightarrow>
     isLowerChar c \<or> (224 \<le> charCode c \<and> charCode c \<le> 254 \<and> charCode c \<noteq> 247)"

definition toLowerCase :: "string \<Rightarrow> string" where
  "toLowerCase s = map (\<lambda>c. if hasLowerCase c then char_of (charCode c + 32) else c) s"

definition toUpperCase :: "string \<Rightarrow> string" where
  "toUpperCase s = map (\<lambda>c. if hasUpperCase c then char_of (charCode c - 32) else c) s"

definition trim :: "string \<Rightarrow> string" where
  "trim s = rev (dropWhile isSpaceChar (rev (dropWhile isSpaceChar s)))"

fun startsWith :: "string \<Rightarrow> string \<Rightarrow> bool" where
  "startsWith s [] = True"
| "startsWith [] (c # t) = False"
| "startsWith (a # s) (c # t) = (a = c \<and> startsWith s t)"

text \<open>\<open>str_includes s t\<close> is \<open>s.includes(t)\<close>: \<open>t\<close> occurs in \<open>s\<close> as a contiguous substring.\<close>

fun str_includes :: "string \<Rightarrow> string \<Rightarrow> bool" where
  "str_includes [] t = (t = [])"
| "str_includes (a # s) t = (startsWith (a # s) t \<or> str_includes s t)"

text \<open>
  \<open>splitRuns sep s\<close> is \<open>s.split(/[sep]+/)\<close> for a class \<open>sep\<close> of separator characters:
  the pieces between the maximal runs of separators. A separator run at the start or at the
  end of the string leaves an empty piece there, and the empty string splits into one empty
  piece.
\<close>

function splitRuns :: "(char \<Rightarrow> bool) \<Rightarrow> string \<Rightarrow> string list" where
  "splitRuns sep s =
     (let piece = takeWhile (\<lambda>c. \<not> sep c) s;
          rest = dropWhile (\<lambda>c. \<not> sep c) s
      in if rest = [] then [piece] else piece # splitRuns sep (dropWhile sep rest))"
  by pat_completeness auto

termination splitRuns
proof (relation "measure (\<lambda>(sep, s). length s)")
  show "wf (measure (\<lambda>(sep :: char \<Rightarrow> bool, s :: string). length s))"
    by simp
next
  fix sep :: "char \<Rightarrow> bool" and s piece rest :: string
  assume rest: "rest = dropWhile (\<lambda>c. \<not> sep c) s" and ne: "rest \<noteq> []"
  from rest ne have "sep (hd rest)"
    using hd_dropWhile [of "\<lambda>c. \<not> sep c" s] by simp
  with ne have "dropWhile sep rest = dropWhile sep (tl rest)"
    by (cases rest) simp_all
  then have "length (dropWhile sep rest) \<le> length (tl rest)"
    by (simp only: length_dropWhile_le)
  also from ne have "\<dots> < length rest"
    by (cases rest) simp_all
  also from rest have "\<dots> \<le> length s"
    by (simp add: length_dropWhile_le)
  finally show "((sep, dropWhile sep rest), (sep, s)) \<in> measure (\<lambda>(sep, s). length s)"
    by simp
qed

declare splitRuns.simps [simp del]

section \<open>Keyword scoring (auto-router)\<close>

text \<open>
  \<open>scoreByKeywords(prompt, keywords, label?)\<close>. The optional label is \<open>None\<close> when the caller
  passes none; the guard \<open>label && \<dots>\<close> is false for a missing label and for the empty string.
\<close>

definition promptWords :: "string \<Rightarrow> string list" where
  "promptWords promptLower =
     filter (\<lambda>w. length w > 2) (splitRuns (\<lambda>c. \<not> isWordChar c) promptLower)"

definition keywordStep :: "string \<Rightarrow> string list \<Rightarrow> int \<Rightarrow> string \<Rightarrow> int" where
  "keywordStep promptLower words score keyword =
     (let kwLower = toLowerCase keyword
      in if str_includes promptLower kwLower then score + 2
         else if list_ex (\<lambda>w. str_includes w kwLower \<or> str_includes kwLower w) words
           then score + 1
         else score)"

definition scoreByKeywords :: "string \<Rightarrow> string list \<Rightarrow> string option \<Rightarrow> int" where
  "scoreByKeywords prompt keywords label =
     (let promptLower = toLowerCase prompt;
          words = promptWords promptLower;
          score = (case label of
                     None \<Rightarrow> 0
                   | Some l \<Rightarrow> if l \<noteq> [] \<and> str_includes promptLower (toLowerCase l) then 5 else 0)
      in foldl (keywordStep promptLower words) score keywords)"

subsection \<open>The scorer as the specification words it\<close>

text \<open>
  The reference definition: the tokens are the maximal runs of word characters of the
  lower-cased prompt that are longer than two characters, found here by one scan over the
  text (and shown below to be exactly those runs); the label earns 5 when its lower-cased
  form occurs in the lower-cased prompt; each keyword earns 2, 1 or 0 independently of the
  others.
\<close>

fun wordRuns :: "string \<Rightarrow> string \<Rightarrow> string list" where
  "wordRuns run [] = (if run = [] then [] else [rev run])"
| "wordRuns run (c # cs) =
     (if isWordChar c then wordRuns (c # run) cs
      else (if run = [] then [] else [rev run]) @ wordRuns [] cs)"

definition spec_tokens :: "string \<Rightarrow> string list" where
  "spec_tokens text = filter (\<lambda>w. length w > 2) (wordRuns [] text)"

text \<open>
  What a maximal run is: a non-empty stretch of word characters of the text with no word
  character directly before it or after it.
\<close>

definition isMaximalWordRun :: "string \<Rightarrow> string \<Rightarrow> bool" where
  "isMaximalWordRun text w \<longleftrightarrow>
     w \<noteq> [] \<and> (\<forall>c \<in> set w. isWordChar c)
     \<and> (\<exists>before after. text = before @ w @ after
           \<and> (before = [] \<or> \<not> isWordChar (last before))
           \<and> (after = [] \<or> \<not> isWordChar (hd after)))"

definition spec_labelPoints :: "string \<Rightarrow> string option \<Rightarrow> int" where
  "spec_labelPoints text label =
     (case label of
        None \<Rightarrow> 0
      | Some l \<Rightarrow> if str_includes text (toLowerCase l) then 5 else 0)"

definition spec_keywordPoints :: "string \<Rightarrow> string \<Rightarrow> int" where
  "spec_keywordPoints text keyword =
     (let kw = toLowerCase keyword
      in if str_includes text kw then 2
         else if \<exists>w \<in> set (spec_tokens text). str_includes kw w \<or> str_includes w kw then 1
         else 0)"

definition spec_score :: "string \<Rightarrow> string list \<Rightarrow> string option \<Rightarrow> int" where
  "spec_score prompt keywords label =
     (let text = toLowerCase prompt
      in spec_labelPoints text label + sum_list (map (spec_keywordPoints text) keywords))"


section \<open>Core types\<close>

text \<open>
  The types of \<open>types.ts\<close>. A field name carries a prefix where two interfaces share it or
  where a function of the source uses it as the name of a parameter.
  The \<open>reasoning\<close> trails are log text built with number formatting and are left out.
\<close>

datatype AIType = Brain | Heart | System

datatype DeviceMode = Standard | Professional | Advanced

datatype ModelSlot = Slot1 | Slot2 | Slot3

record ModeLimits =
  lim_nodes :: nat
  lim_stacks :: nat
  lim_domains :: nat

fun MODE_LIMITS :: "DeviceMode \<Rightarrow> ModeLimits" where
  "MODE_LIMITS Standard = \<lparr>lim_nodes = 2, lim_stacks = 1, lim_domains = 1\<rparr>"
| "MODE_LIMITS Professional = \<lparr>lim_nodes = 2, lim_stacks = 2, lim_domains = 2\<rparr>"
| "MODE_LIMITS Advanced = \<lparr>lim_nodes = 3, lim_stacks = 3, lim_domains = 3\<rparr>"

record AINode =
  n_id :: string
  n_aiType :: AIType
  n_modelSlot :: "ModelSlot option"
  n_name :: string
  n_label :: string
  n_description :: "string option"
  n_keywords :: "string list"
  n_priority :: real
  n_isActive :: bool

record AIStack =
  s_id :: string
  s_nodeId :: string
  s_aiType :: AIType
  s_name :: string
  s_label :: string
  s_description :: "string option"
  s_keywords :: "string list"
  s_priority :: real
  s_isActive :: bool

record AIDomain =
  d_id :: string
  d_stackId :: string
  d_nodeId :: string
  d_aiType :: AIType
  d_name :: string
  d_description :: "string option"
  d_keywords :: "string list"
  d_systemPrompt :: "string option"
  d_priority :: real
  d_isActive :: bool

datatype MemoryType = BrainMemory | SharedMemory

record AIMemory =
  m_id :: string
  m_aiType :: MemoryType
  m_domainId :: "string option"
  m_content :: string
  m_context :: "(string \<times> string) list"
  m_relevanceScore :: real
  m_usageCount :: nat

record AIModelConfig =
  c_id :: string
  c_aiType :: AIType
  c_modelSlot :: ModelSlot
  c_provider :: string
  c_modelName :: string
  c_isPrimary :: bool
  c_isBackup :: bool
  c_priority :: real
  c_maxTokens :: nat
  c_temperature :: real
  c_timeoutMs :: nat
  c_isActive :: bool

record SelectedItem =
  i_id :: string
  i_label :: string
  i_name :: string
  i_score :: real

record SelectedDomain =
  sd_id :: string
  sd_name :: string
  sd_stackId :: string
  sd_stackLabel :: string
  sd_nodeId :: string
  sd_nodeLabel :: string
  sd_keywords :: "string list"
  sd_systemPrompt :: "string option"
  sd_score :: real

record RoutingResult =
  rr_mode :: DeviceMode
  rr_nodes :: "SelectedItem list"
  rr_stacks :: "SelectedItem list"
  rr_domains :: "SelectedDomain list"
  rr_memories :: "AIMemory list"
  rr_totalDomains :: nat
  rr_confidence :: real

record ModelResponse =
  resp_modelSlot :: ModelSlot
  resp_provider :: string
  resp_modelName :: string
  resp_response :: string
  resp_success :: bool
  resp_timeMs :: int
  resp_error :: "string option"
  resp_routing :: RoutingResult

record AISystemResult =
  res_aiType :: AIType
  res_deviceMode :: DeviceMode
  res_prompt :: string
  res_model1Response :: ModelResponse
  res_model2Response :: ModelResponse
  res_model3Response :: ModelResponse
  res_finalAnswer :: string
  res_totalTimeMs :: int
  res_qualityScore :: real

record ContributionWeights =
  model1 :: real
  model2 :: real
  model3 :: real

record KnowledgeAlgorithmInput =
  in_aiType :: AIType
  in_prompt :: string
  in_responses :: "ModelResponse list"

record KnowledgeAlgorithmOutput =
  fusedAnswer :: string
  qualityScore :: real
  selectedPrimary :: ModelSlot
  contributionWeights :: ContributionWeights

section \<open>The backing store\<close>

text \<open>
  The relational store is outside the program. A value of \<open>Db\<close> gives the outcome of each
  query the program issues during one call: the rows, or the error that \<open>db.execute\<close> raises.
  The rows carry the SQL column names; \<open>keywords\<close> and \<open>context\<close> may be null.
\<close>

datatype error =
    DbError string
  | ClientError string
  | TypeError string
  | MissingModelConfiguration AIType

record NodeRow =
  nr_id :: string
  nr_ai_type :: AIType
  nr_model_slot :: "ModelSlot option"
  nr_name :: string
  nr_label :: string
  nr_description :: "string option"
  nr_keywords :: "string list option"
  nr_priority :: real
  nr_is_active :: bool

record StackRow =
  sr_id :: string
  sr_node_id :: string
  sr_ai_type :: AIType
  sr_name :: string
  sr_label :: string
  sr_description :: "string option"
  sr_keywords :: "string list option"
  sr_priority :: real
  sr_is_active :: bool

record DomainRow =
  dr_id :: string
  dr_stack_id :: string
  dr_node_id :: string
  dr_ai_type :: AIType
  dr_name :: string
  dr_description :: "string option"
  dr_keywords :: "string list option"
  dr_system_prompt :: "string option"
  dr_priority :: real
  dr_is_active :: bool

record MemoryRow =
  mr_id :: string
  mr_ai_type :: MemoryType
  mr_domain_id :: "string option"
  mr_content :: string
  mr_context :: "(string \<times> string) list option"
  mr_relevance_score :: real
  mr_usage_count :: nat

record ConfigRow =
  cr_id :: string
  cr_ai_type :: AIType
  cr_model_slot :: ModelSlot
  cr_provider :: string
  cr_model_name :: string
  cr_is_primary :: bool
  cr_is_backup :: bool
  cr_priority :: real
  cr_max_tokens :: nat
  cr_temperature :: real
  cr_timeout_ms :: nat
  cr_is_active :: bool

record Db =
  selectNodesQuery :: "error + NodeRow list"
  selectStacksQuery :: "error + StackRow list"
  selectDomainsQuery :: "error + DomainRow list"
  selectMemoriesQuery :: "MemoryType \<Rightarrow> string list \<Rightarrow> nat \<Rightarrow> error + MemoryRow list"
  selectModelConfigQuery :: "error + ConfigRow list"
  insertLog :: "error + unit"


section \<open>Catalog cache (auto-router)\<close>

record LabelIndex =
  idx_nodes :: "string \<rightharpoonup> AINode"
  idx_stacks :: "string \<rightharpoonup> AIStack list"
  idx_domains :: "string \<rightharpoonup> AIDomain list"
  nodesByModel :: "ModelSlot \<rightharpoonup> AINode list"

record RouterState =
  labelIndex :: LabelIndex
  allNodes :: "AINode list"
  allStacks :: "AIStack list"
  allDomains :: "AIDomain list"
  lastCacheRefresh :: int

definition emptyLabelIndex :: LabelIndex where
  "emptyLabelIndex =
     \<lparr>idx_nodes = Map.empty, idx_stacks = Map.empty, idx_domains = Map.empty,
      nodesByModel = Map.empty\<rparr>"

definition initialRouterState :: RouterState where
  "initialRouterState =
     \<lparr>labelIndex = emptyLabelIndex, allNodes = [], allStacks = [], allDomains = [],
      lastCacheRefresh = 0\<rparr>"

definition CACHE_TTL_MS :: int where
  "CACHE_TTL_MS = 60000"

text \<open>\<open>getOrEmpty m k\<close> is \<open>m.get(k) || []\<close> on a map whose values are arrays.\<close>

definition getOrEmpty :: "('k \<rightharpoonup> 'v list) \<Rightarrow> 'k \<Rightarrow> 'v list" where
  "getOrEmpty m k = (case m k of None \<Rightarrow> [] | Some vs \<Rightarrow> vs)"

text \<open>\<open>pushAt m k v\<close>: create the array at \<open>k\<close> if the map has none, then push \<open>v\<close> onto it.\<close>

definition pushAt :: "('k \<rightharpoonup> 'v list) \<Rightarrow> 'k \<Rightarrow> 'v \<Rightarrow> ('k \<rightharpoonup> 'v list)" where
  "pushAt m k v = m(k \<mapsto> getOrEmpty m k @ [v])"

definition indexNode :: "LabelIndex \<Rightarrow> AINode \<Rightarrow> LabelIndex" where
  "indexNode idx node =
     (let idx1 = idx\<lparr>idx_nodes := (idx_nodes idx)(toUpperCase (n_label node) \<mapsto> node)\<rparr>
      in case n_modelSlot node of
           None \<Rightarrow> idx1
         | Some slot \<Rightarrow> idx1\<lparr>nodesByModel := pushAt (nodesByModel idx1) slot node\<rparr>)"

definition indexStack :: "LabelIndex \<Rightarrow> AIStack \<Rightarrow> LabelIndex" where
  "indexStack idx stack = idx\<lparr>idx_stacks := pushAt (idx_stacks idx) (s_nodeId stack) stack\<rparr>"

definition indexDomain :: "LabelIndex \<Rightarrow> AIDomain \<Rightarrow> LabelIndex" where
  "indexDomain idx domain =
     idx\<lparr>idx_domains := pushAt (idx_domains idx) (d_stackId domain) domain\<rparr>"

definition buildLabelIndex :: "RouterState \<Rightarrow> RouterState" where
  "buildLabelIndex st =
     st\<lparr>labelIndex :=
          foldl indexDomain
            (foldl indexStack (foldl indexNode emptyLabelIndex (allNodes st)) (allStacks st))
            (allDomains st)\<rparr>"

definition nodeOfRow :: "NodeRow \<Rightarrow> AINode" where
  "nodeOfRow row =
     \<lparr>n_id = nr_id row, n_aiType = nr_ai_type row, n_modelSlot = nr_model_slot row,
      n_name = nr_name row, n_label = nr_label row, n_description = nr_description row,
      n_keywords = (case nr_keywords row of None \<Rightarrow> [] | Some ks \<Rightarrow> ks),
      n_priority = nr_priority row, n_isActive = nr_is_active row\<rparr>"

definition stackOfRow :: "StackRow \<Rightarrow> AIStack" where
  "stackOfRow row =
     \<lparr>s_id = sr_id row, s_nodeId = sr_node_id row, s_aiType = sr_ai_type row,
      s_name = sr_name row, s_label = sr_label row, s_description = sr_description row,
      s_keywords = (case sr_keywords row of None \<Rightarrow> [] | Some ks \<Rightarrow> ks),
      s_priority = sr_priority row, s_isActive = sr_is_active row\<rparr>"

definition domainOfRow :: "DomainRow \<Rightarrow> AIDomain" where
  "domainOfRow row =
     \<lparr>d_id = dr_id row, d_stackId = dr_stack_id row, d_nodeId = dr_node_id row,
      d_aiType = dr_ai_type row, d_name = dr_name row, d_description = dr_description row,
      d_keywords = (case dr_keywords row of None \<Rightarrow> [] | Some ks \<Rightarrow> ks),
      d_systemPrompt = dr_system_prompt row, d_priority = dr_priority row,
      d_isActive = dr_is_active row\<rparr>"

text \<open>
  \<open>refreshCache\<close>: \<open>now\<close> is the value of \<open>Date.now()\<close>. The result is the state after the call
  together with the number of \<open>db.execute\<close> calls made. Each of the three assignments
  \<open>allNodes = \<dots>\<close>, \<open>allStacks = \<dots>\<close>, \<open>allDomains = \<dots>\<close> takes place as soon as its own read has
  returned; an error raised by a read is caught at the end of the function, where the index
  and the timestamp are left as they were.
\<close>

definition refreshCache :: "Db \<Rightarrow> int \<Rightarrow> RouterState \<Rightarrow> RouterState \<times> nat" where
  "refreshCache db now st =
     (if now - lastCacheRefresh st < CACHE_TTL_MS then (st, 0)
      else case selectNodesQuery db of
        Inl e \<Rightarrow> (st, 1)
      | Inr nodeRows \<Rightarrow>
          let st1 = st\<lparr>allNodes := map nodeOfRow nodeRows\<rparr>
          in case selectStacksQuery db of
            Inl e \<Rightarrow> (st1, 2)
          | Inr stackRows \<Rightarrow>
              let st2 = st1\<lparr>allStacks := map stackOfRow stackRows\<rparr>
              in case selectDomainsQuery db of
                Inl e \<Rightarrow> (st2, 3)
              | Inr domainRows \<Rightarrow>
                  let st3 = st2\<lparr>allDomains := map domainOfRow domainRows\<rparr>
                  in ((buildLabelIndex st3)\<lparr>lastCacheRefresh := now\<rparr>, 3))"

definition forceRefreshCache :: "Db \<Rightarrow> int \<Rightarrow> RouterState \<Rightarrow> RouterState \<times> nat" where
  "forceRefreshCache db now st = refreshCache db now (st\<lparr>lastCacheRefresh := 0\<rparr>)"

section \<open>Selection (auto-router)\<close>

text \<open>
  \<open>slice0 xs n\<close> is \<open>xs.slice(0, n)\<close> for an integral \<open>n\<close>: a negative \<open>n\<close> counts from the end.
  \<open>sortByScoreDesc\<close> is \<open>sort((a, b) => b.score - a.score)\<close>: the sort is stable, so items of
  equal score keep their order.
\<close>

definition slice0 :: "'a list \<Rightarrow> int \<Rightarrow> 'a list" where
  "slice0 xs n = (if n < 0 then take (nat (int (length xs) + n)) xs else take (nat n) xs)"

definition sortByScoreDesc :: "('a \<Rightarrow> real) \<Rightarrow> 'a list \<Rightarrow> 'a list" where
  "sortByScoreDesc score xs = sort_key (\<lambda>x. - score x) xs"

definition scoreNode :: "string \<Rightarrow> AINode \<Rightarrow> SelectedItem" where
  "scoreNode prompt node =
     \<lparr>i_id = n_id node, i_label = n_label node, i_name = n_name node,
      i_score = of_int (scoreByKeywords prompt (n_keywords node) (Some (n_label node)))
                + n_priority node / 100\<rparr>"

definition selectTopItems :: "AINode list \<Rightarrow> string \<Rightarrow> int \<Rightarrow> SelectedItem list" where
  "selectTopItems nodes prompt limit =
     (let scored = map (scoreNode prompt) nodes
      in slice0 (sortByScoreDesc i_score scored) limit)"

definition selectNodes ::
  "RouterState \<Rightarrow> AIType \<Rightarrow> ModelSlot \<Rightarrow> string \<Rightarrow> int \<Rightarrow> SelectedItem list" where
  "selectNodes st aiType modelSlot prompt limit =
     (let modelNodes = getOrEmpty (nodesByModel (labelIndex st)) modelSlot;
          relevantNodes = filter (\<lambda>n. n_aiType n = aiType) modelNodes
      in if length relevantNodes = 0
         then (let fallbackNodes = filter (\<lambda>n. n_aiType n = aiType) (allNodes st)
               in selectTopItems fallbackNodes prompt limit)
         else selectTopItems relevantNodes prompt limit)"

definition scoreStack :: "string \<Rightarrow> AIStack \<Rightarrow> SelectedItem" where
  "scoreStack prompt stack =
     \<lparr>i_id = s_id stack, i_label = s_label stack, i_name = s_name stack,
      i_score = of_int (scoreByKeywords prompt (s_keywords stack) (Some (s_label stack)))
                + s_priority stack / 100\<rparr>"

definition selectStacks ::
  "RouterState \<Rightarrow> SelectedItem list \<Rightarrow> string \<Rightarrow> int \<Rightarrow> SelectedItem list" where
  "selectStacks st selectedNodes prompt limitPerNode =
     concat (map (\<lambda>node.
        let nodeStacks = getOrEmpty (idx_stacks (labelIndex st)) (i_id node);
            scored = map (scoreStack prompt) nodeStacks
        in slice0 (sortByScoreDesc i_score scored) limitPerNode) selectedNodes)"

definition scoreDomain ::
  "string \<Rightarrow> SelectedItem \<Rightarrow> SelectedItem option \<Rightarrow> AIDomain \<Rightarrow> SelectedDomain" where
  "scoreDomain prompt stack node domain =
     \<lparr>sd_id = d_id domain, sd_name = d_name domain, sd_stackId = d_stackId domain,
      sd_stackLabel = i_label stack, sd_nodeId = d_nodeId domain,
      sd_nodeLabel = (case node of None \<Rightarrow> [] | Some n \<Rightarrow> i_label n),
      sd_keywords = d_keywords domain, sd_systemPrompt = d_systemPrompt domain,
      sd_score = of_int (scoreByKeywords prompt (d_keywords domain) None)
                 + d_priority domain / 100\<rparr>"

definition selectDomains ::
  "RouterState \<Rightarrow> SelectedItem list \<Rightarrow> SelectedItem list \<Rightarrow> string \<Rightarrow> int
     \<Rightarrow> SelectedDomain list" where
  "selectDomains st selectedStacks selectedNodes prompt limitPerStack =
     (let nodeMap = map_of (rev (map (\<lambda>n. (i_id n, n)) selectedNodes))
      in concat (map (\<lambda>stack.
           let stackDomains = getOrEmpty (idx_domains (labelIndex st)) (i_id stack);
               parentStack = find (\<lambda>s. s_id s = i_id stack) (allStacks st);
               nodeId = (case parentStack of None \<Rightarrow> [] | Some s \<Rightarrow> s_nodeId s);
               node = nodeMap nodeId;
               scored = map (scoreDomain prompt stack node) stackDomains
           in slice0 (sortByScoreDesc sd_score scored) limitPerStack) selectedStacks))"

definition memoryOfRow :: "MemoryRow \<Rightarrow> AIMemory" where
  "memoryOfRow row =
     \<lparr>m_id = mr_id row, m_aiType = mr_ai_type row, m_domainId = mr_domain_id row,
      m_content = mr_content row,
      m_context = (case mr_context row of None \<Rightarrow> [] | Some c \<Rightarrow> c),
      m_relevanceScore = mr_relevance_score row, m_usageCount = mr_usage_count row\<rparr>"

definition getMemories :: "Db \<Rightarrow> AIType \<Rightarrow> string list \<Rightarrow> nat \<Rightarrow> AIMemory list" where
  "getMemories db aiType domainIds limit =
     (if length domainIds = 0 then []
      else let memoryType = (if aiType = Brain then BrainMemory else SharedMemory)
           in case selectMemoriesQuery db memoryType domainIds limit of
                Inl e \<Rightarrow> []
              | Inr rows \<Rightarrow> map memoryOfRow rows)"

definition autoRoute ::
  "Db \<Rightarrow> int \<Rightarrow> RouterState \<Rightarrow> AIType \<Rightarrow> ModelSlot \<Rightarrow> string \<Rightarrow> DeviceMode
     \<Rightarrow> RoutingResult \<times> RouterState" where
  "autoRoute db now st0 aiType modelSlot prompt mode =
     (let st = fst (refreshCache db now st0);
          limits = MODE_LIMITS mode;
          nodes = selectNodes st aiType modelSlot prompt (int (lim_nodes limits));
          stacks = selectStacks st nodes prompt (int (lim_stacks limits));
          domains = selectDomains st stacks nodes prompt (int (lim_domains limits));
          domainIds = map sd_id domains;
          memories = getMemories db aiType domainIds 5;
          avgScore = (if length domains > 0
                      then sum_list (map sd_score domains) / real (length domains)
                      else 0);
          confidence = min 1 (avgScore / 5)
      in (\<lparr>rr_mode = mode, rr_nodes = nodes, rr_stacks = stacks, rr_domains = domains,
           rr_memories = memories, rr_totalDomains = length domains,
           rr_confidence = confidence\<rparr>,
          st))"


section \<open>Knowledge algorithms\<close>

definition similarityWords :: "string \<Rightarrow> string list" where
  "similarityWords text =
     remdups (filter (\<lambda>w. length w > 3) (splitRuns (\<lambda>c. \<not> isWordChar c) (toLowerCase text)))"

definition calculateSimilarity :: "string \<Rightarrow> string \<Rightarrow> real" where
  "calculateSimilarity text1 text2 =
     (if text1 = [] \<or> text2 = [] then 0
      else let words1 = similarityWords text1;
               words2 = similarityWords text2
           in if length words1 = 0 \<or> length words2 = 0 then 0
              else let overlap = length (filter (\<lambda>word. word \<in> set words2) words1)
                   in real overlap / real (max (length words1) (length words2)))"

definition isSentenceEnd :: "char \<Rightarrow> bool" where
  "isSentenceEnd c \<longleftrightarrow> c = CHR ''.'' \<or> c = CHR ''!'' \<or> c = CHR ''?''"

definition calculateResponseQuality :: "ModelResponse \<Rightarrow> real" where
  "calculateResponseQuality response =
     (if \<not> resp_success response \<or> resp_response response = [] then 0
      else let text = resp_response response;
               score0 = 0.5;
               len = length text;
               score1 = (if len > 100 \<and> len < 5000 then score0 + 0.2
                         else if len \<ge> 50 then score0 + 0.1 else score0);
               sentences = filter (\<lambda>s. length (trim s) > 10) (splitRuns isSentenceEnd text);
               score2 = (if length sentences \<ge> 2 then score1 + 0.1 else score1);
               score3 = (if \<not> str_includes (toLowerCase text) ''error''
                            \<and> \<not> str_includes (toLowerCase text) ''cannot''
                            \<and> \<not> str_includes (toLowerCase text) ''unable''
                         then score2 + 0.1 else score2);
               score4 = (if resp_timeMs response > 500 \<and> resp_timeMs response < 10000
                         then score3 + 0.1 else score3)
           in min 1 score4)"

record ScoredResponse =
  q_response :: ModelResponse
  q_quality :: real

definition isValidResponse :: "ModelResponse \<Rightarrow> bool" where
  "isValidResponse r \<longleftrightarrow> resp_success r \<and> trim (resp_response r) \<noteq> []"

text \<open>The pairs \<open>(xs[i], xs[j])\<close> with \<open>i < j\<close>, in the order of the nested loops.\<close>

fun pairsOf :: "'a list \<Rightarrow> ('a \<times> 'a) list" where
  "pairsOf [] = []"
| "pairsOf (x # xs) = map (Pair x) xs @ pairsOf xs"

definition pairSimilarities :: "ModelResponse list \<Rightarrow> real list" where
  "pairSimilarities validResponses =
     map (\<lambda>(a, b). calculateSimilarity (resp_response a) (resp_response b))
       (pairsOf validResponses)"

definition zeroWeights :: ContributionWeights where
  "zeroWeights = \<lparr>model1 = 0, model2 = 0, model3 = 0\<rparr>"

fun setWeight :: "ContributionWeights \<Rightarrow> ModelSlot \<Rightarrow> real \<Rightarrow> ContributionWeights" where
  "setWeight w Slot1 v = w\<lparr>model1 := v\<rparr>"
| "setWeight w Slot2 v = w\<lparr>model2 := v\<rparr>"
| "setWeight w Slot3 v = w\<lparr>model3 := v\<rparr>"

fun getWeight :: "ContributionWeights \<Rightarrow> ModelSlot \<Rightarrow> real" where
  "getWeight w Slot1 = model1 w"
| "getWeight w Slot2 = model2 w"
| "getWeight w Slot3 = model3 w"

definition totalQuality :: "ScoredResponse list \<Rightarrow> real" where
  "totalQuality scores = foldl (\<lambda>sum s. sum + q_quality s) 0 scores"

text \<open>
  The weight loop, shared by the three variants: it runs over the sorted \<open>scores\<close> and stores
  each response's share under the key of its model slot.
\<close>

definition weightStep ::
  "real \<Rightarrow> ContributionWeights \<Rightarrow> ScoredResponse \<Rightarrow> ContributionWeights" where
  "weightStep totalQ weights s =
     setWeight weights (resp_modelSlot (q_response s))
       (if totalQ > 0 then q_quality s / totalQ else 0)"

definition calculateWeights :: "ScoredResponse list \<Rightarrow> ContributionWeights" where
  "calculateWeights scores = foldl (weightStep (totalQuality scores)) zeroWeights scores"

text \<open>
  The source runs the weight loop in double precision. In \<open>calculateWeightsFl rnd\<close> the
  function \<open>rnd\<close> is the rounding that follows each addition of the total and each division
  of a share; \<open>calculateWeights\<close> is the loop with no rounding. \<open>doublePrecision rnd\<close> is what
  rounding to the nearest double does on the numbers met here: between 1/8 and 4 its
  relative error is at most \<open>2\<^sup>-\<^sup>5\<^sup>3\<close>.
\<close>

definition totalQualityFl :: "(real \<Rightarrow> real) \<Rightarrow> ScoredResponse list \<Rightarrow> real" where
  "totalQualityFl rnd scores = foldl (\<lambda>sum s. rnd (sum + q_quality s)) 0 scores"

definition weightStepFl ::
  "(real \<Rightarrow> real) \<Rightarrow> real \<Rightarrow> ContributionWeights \<Rightarrow> ScoredResponse \<Rightarrow> ContributionWeights" where
  "weightStepFl rnd totalQ weights s =
     setWeight weights (resp_modelSlot (q_response s))
       (if totalQ > 0 then rnd (q_quality s / totalQ) else 0)"

definition calculateWeightsFl :: "(real \<Rightarrow> real) \<Rightarrow> ScoredResponse list \<Rightarrow> ContributionWeights" where
  "calculateWeightsFl rnd scores =
     foldl (weightStepFl rnd (totalQualityFl rnd scores)) zeroWeights scores"

definition doublePrecision :: "(real \<Rightarrow> real) \<Rightarrow> bool" where
  "doublePrecision rnd \<longleftrightarrow> (\<forall>x. 1/8 \<le> x \<and> x \<le> 4 \<longrightarrow> \<bar>rnd x - x\<bar> \<le> x / 2^53)"

definition noValidResponses :: "string \<Rightarrow> KnowledgeAlgorithmOutput" where
  "noValidResponses answer =
     \<lparr>fusedAnswer = answer, qualityScore = 0, selectedPrimary = Slot1,
      contributionWeights = \<lparr>model1 = 0, model2 = 0, model3 = 0\<rparr>\<rparr>"

definition brainScores :: "ModelResponse list \<Rightarrow> ScoredResponse list" where
  "brainScores validResponses =
     map (\<lambda>r. \<lparr>q_response = r, q_quality = calculateResponseQuality r\<rparr>) validResponses"

definition brainCoherence :: "ModelResponse list \<Rightarrow> real" where
  "brainCoherence validResponses =
     (if length validResponses \<ge> 2
      then let sims = pairSimilarities validResponses;
               totalSim = foldl (+) 0 sims;
               pairs = length sims
           in if pairs > 0 then totalSim / real pairs else 1
      else 1)"

text \<open>
  In each variant \<open>scores[0]\<close> is read after the sort. On an empty array that read gives
  \<open>undefined\<close> and the next property access raises a \<open>TypeError\<close>; the branch is kept.
\<close>

definition brainKnowledgeAlgorithm ::
  "KnowledgeAlgorithmInput \<Rightarrow> error + KnowledgeAlgorithmOutput" where
  "brainKnowledgeAlgorithm input =
     (let validResponses = filter isValidResponse (in_responses input)
      in if length validResponses = 0
         then Inr (noValidResponses
                ''I apologize, but I was unable to generate a response. Please try again.'')
         else let coherenceScore = brainCoherence validResponses;
                  scores = sortByScoreDesc q_quality (brainScores validResponses)
              in case scores of
                   [] \<Rightarrow> Inl (TypeError ''primary is undefined'')
                 | primary # _ \<Rightarrow>
                     Inr \<lparr>fusedAnswer = resp_response (q_response primary),
                          qualityScore = (q_quality primary + coherenceScore) / 2,
                          selectedPrimary = resp_modelSlot (q_response primary),
                          contributionWeights = calculateWeights scores\<rparr>)"

definition heartQuality :: "ModelResponse \<Rightarrow> real" where
  "heartQuality r =
     (let quality0 = calculateResponseQuality r;
          text = resp_response r;
          quality1 = (if str_includes text ''```'' then quality0 + 0.15 else quality0);
          quality2 = (if str_includes text ''function '' \<or> str_includes text ''const ''
                         \<or> str_includes text ''class ''
                      then quality1 + 0.1 else quality1);
          quality3 = (if str_includes text ''import '' \<or> str_includes text ''require(''
                      then quality2 + 0.05 else quality2);
          quality4 = (if str_includes text ''1.'' \<or> str_includes text ''Step ''
                      then quality3 + 0.05 else quality3)
      in min 1 quality4)"

definition heartScores :: "ModelResponse list \<Rightarrow> ScoredResponse list" where
  "heartScores validResponses =
     map (\<lambda>r. \<lparr>q_response = r, q_quality = heartQuality r\<rparr>) validResponses"

definition heartConsensusBonus :: "ModelResponse list \<Rightarrow> real" where
  "heartConsensusBonus validResponses =
     (if length validResponses \<ge> 2
      then let similarities = pairSimilarities validResponses;
               avgSim = foldl (+) 0 similarities / real (length similarities)
           in if avgSim > 0.3 then 0.1 else 0
      else 0)"

definition heartKnowledgeAlgorithm ::
  "KnowledgeAlgorithmInput \<Rightarrow> error + KnowledgeAlgorithmOutput" where
  "heartKnowledgeAlgorithm input =
     (let validResponses = filter isValidResponse (in_responses input)
      in if length validResponses = 0
         then Inr (noValidResponses
                ''// Unable to generate code fix. Please provide more details.'')
         else let scores = sortByScoreDesc q_quality (heartScores validResponses)
              in case scores of
                   [] \<Rightarrow> Inl (TypeError ''primary is undefined'')
                 | primary # _ \<Rightarrow>
                     let consensusBonus = heartConsensusBonus validResponses
                     in Inr \<lparr>fusedAnswer = resp_response (q_response primary),
                             qualityScore = min 1 (q_quality primary + consensusBonus),
                             selectedPrimary = resp_modelSlot (q_response primary),
                             contributionWeights = calculateWeights scores\<rparr>)"

text \<open>
  \<open>countNumberMatches text\<close> is the length of \<open>text.match(/\d+(\.\d+)?(%|ms|mb|gb|kb)?/g)\<close>
  (0 when there is no match): the matches are found from left to right, each one taking
  the digits, then a fraction if a dot and a digit follow, then a unit if one follows.
\<close>

definition skipFraction :: "string \<Rightarrow> string" where
  "skipFraction s =
     (case s of
        d # f # rest \<Rightarrow>
          if d = CHR ''.'' \<and> isDigitChar f then dropWhile isDigitChar rest else s
      | _ \<Rightarrow> s)"

definition skipUnit :: "string \<Rightarrow> string" where
  "skipUnit s =
     (if startsWith s ''%'' then drop 1 s
      else if startsWith s ''ms'' \<or> startsWith s ''mb'' \<or> startsWith s ''gb''
              \<or> startsWith s ''kb''
        then drop 2 s
      else s)"

function countNumberMatches :: "string \<Rightarrow> nat" where
  "countNumberMatches [] = 0"
| "countNumberMatches (c # cs) =
     (if isDigitChar c
      then Suc (countNumberMatches (skipUnit (skipFraction (dropWhile isDigitChar cs))))
      else countNumberMatches cs)"
  by pat_completeness auto

termination countNumberMatches
proof (relation "measure length")
  show "wf (measure (length :: string \<Rightarrow> nat))"
    by simp
next
  fix c :: char and cs :: string
  let ?a = "dropWhile isDigitChar cs"
  have "length (skipUnit (skipFraction ?a)) \<le> length (skipFraction ?a)"
    by (simp add: skipUnit_def)
  also have "\<dots> \<le> length ?a"
  proof -
    have "length (skipFraction a) \<le> length a" for a
    proof (cases a)
      case Nil
      then show ?thesis by (simp add: skipFraction_def)
    next
      case (Cons d ds)
      have "length (dropWhile isDigitChar (tl ds)) \<le> length (tl ds)"
        by (rule length_dropWhile_le)
      with Cons show ?thesis
        by (cases ds) (simp_all add: skipFraction_def)
    qed
    then show ?thesis .
  qed
  also have "\<dots> \<le> length cs"
    by (rule length_dropWhile_le)
  finally show "(skipUnit (skipFraction ?a), c # cs) \<in> measure length"
    by simp
next
  fix c :: char and cs :: string
  show "(cs, c # cs) \<in> measure length"
    by simp
qed

definition systemQuality :: "ModelResponse \<Rightarrow> real" where
  "systemQuality r =
     (let quality0 = calculateResponseQuality r;
          text = toLowerCase (resp_response r);
          quality1 = (if countNumberMatches text \<ge> 2 then quality0 + 0.1 else quality0);
          quality2 = (if str_includes text ''healthy'' \<or> str_includes text ''normal''
                         \<or> str_includes text ''warning'' \<or> str_includes text ''critical''
                      then quality1 + 0.1 else quality1);
          quality3 = (if str_includes text ''recommend'' \<or> str_includes text ''should''
                         \<or> str_includes text ''action''
                      then quality2 + 0.1 else quality2)
      in min 1 quality3)"

definition systemScores :: "ModelResponse list \<Rightarrow> ScoredResponse list" where
  "systemScores validResponses =
     map (\<lambda>r. \<lparr>q_response = r, q_quality = systemQuality r\<rparr>) validResponses"

definition severityIndicators :: "string list" where
  "severityIndicators = [''critical'', ''warning'', ''healthy'', ''normal'', ''error'']"

definition detectedSeverity :: "ModelResponse \<Rightarrow> string" where
  "detectedSeverity r =
     (let text = toLowerCase (resp_response r)
      in case find (\<lambda>s. str_includes text s) severityIndicators of
           None \<Rightarrow> ''unknown''
         | Some s \<Rightarrow> s)"

definition systemKnowledgeAlgorithm ::
  "KnowledgeAlgorithmInput \<Rightarrow> error + KnowledgeAlgorithmOutput" where
  "systemKnowledgeAlgorithm input =
     (let validResponses = filter isValidResponse (in_responses input)
      in if length validResponses = 0
         then Inr (noValidResponses
                ''System diagnostic unavailable. Manual inspection recommended.'')
         else let scores = sortByScoreDesc q_quality (systemScores validResponses)
              in case scores of
                   [] \<Rightarrow> Inl (TypeError ''primary is undefined'')
                 | primary # _ \<Rightarrow>
                     let detectedSeverities = map detectedSeverity validResponses;
                         severityConsensus = (length (remdups detectedSeverities) = 1)
                     in Inr \<lparr>fusedAnswer = resp_response (q_response primary),
                             qualityScore = (if severityConsensus then q_quality primary
                                             else q_quality primary * 0.8),
                             selectedPrimary = resp_modelSlot (q_response primary),
                             contributionWeights = calculateWeights scores\<rparr>)"

text \<open>The dispatcher's \<open>default\<close> branch has no value of \<open>AIType\<close> left to reach it.\<close>

definition runKnowledgeAlgorithm ::
  "KnowledgeAlgorithmInput \<Rightarrow> error + KnowledgeAlgorithmOutput" where
  "runKnowledgeAlgorithm input =
     (case in_aiType input of
        Brain \<Rightarrow> brainKnowledgeAlgorithm input
      | Heart \<Rightarrow> heartKnowledgeAlgorithm input
      | System \<Rightarrow> systemKnowledgeAlgorithm input)"


section \<open>AI system handler\<close>

record HandlerState =
  modelConfigCache :: "AIType \<times> ModelSlot \<rightharpoonup> AIModelConfig list"
  lastConfigRefresh :: int

definition initialHandlerState :: HandlerState where
  "initialHandlerState = \<lparr>modelConfigCache = Map.empty, lastConfigRefresh = 0\<rparr>"

definition CONFIG_CACHE_TTL_MS :: int where
  "CONFIG_CACHE_TTL_MS = 60000"

definition configOfRow :: "ConfigRow \<Rightarrow> AIModelConfig" where
  "configOfRow row =
     \<lparr>c_id = cr_id row, c_aiType = cr_ai_type row, c_modelSlot = cr_model_slot row,
      c_provider = cr_provider row, c_modelName = cr_model_name row,
      c_isPrimary = cr_is_primary row, c_isBackup = cr_is_backup row,
      c_priority = cr_priority row, c_maxTokens = cr_max_tokens row,
      c_temperature = cr_temperature row, c_timeoutMs = cr_timeout_ms row,
      c_isActive = cr_is_active row\<rparr>"

text \<open>
  The cache key \<open>`${ai_type}-${model_slot}`\<close> determines the pair of its two parts and is
  modelled as that pair.
\<close>

definition refreshModelConfig :: "Db \<Rightarrow> int \<Rightarrow> HandlerState \<Rightarrow> HandlerState" where
  "refreshModelConfig db now hs =
     (if now - lastConfigRefresh hs < CONFIG_CACHE_TTL_MS then hs
      else case selectModelConfigQuery db of
        Inl e \<Rightarrow> hs
      | Inr rows \<Rightarrow>
          hs\<lparr>modelConfigCache :=
               foldl (\<lambda>cache row.
                  pushAt cache (cr_ai_type row, cr_model_slot row) (configOfRow row))
                 Map.empty rows,
             lastConfigRefresh := now\<rparr>)"

definition getModelConfig :: "HandlerState \<Rightarrow> AIType \<Rightarrow> ModelSlot \<Rightarrow> AIModelConfig option" where
  "getModelConfig hs aiType slot =
     (let configs = getOrEmpty (modelConfigCache hs) (aiType, slot)
      in case find c_isPrimary configs of
           Some c \<Rightarrow> Some c
         | None \<Rightarrow> (case configs of [] \<Rightarrow> None | c # _ \<Rightarrow> Some c))"

text \<open>
  \<open>joinWith sep parts\<close> is \<open>parts.join(sep)\<close>. The arrow U+2192 of the context header is one
  code unit in the source and lies outside the 8-bit characters; the single character
  \<open>0x1A\<close> stands for it, so that lengths agree.
\<close>

fun joinWith :: "string \<Rightarrow> string list \<Rightarrow> string" where
  "joinWith sep [] = []"
| "joinWith sep [x] = x"
| "joinWith sep (x # y # ys) = x @ sep @ joinWith sep (y # ys)"

definition arrow :: string where
  "arrow = [CHR 0x1A]"

definition newline :: string where
  "newline = [CHR 0x0A]"

definition buildContextPrompt :: "string \<Rightarrow> RoutingResult \<Rightarrow> string" where
  "buildContextPrompt originalPrompt routing =
     (let pathStr = joinWith '' | ''
            (map (\<lambda>d. sd_nodeLabel d @ arrow @ sd_stackLabel d @ arrow @ sd_name d)
               (rr_domains routing));
          parts0 = [''[Context: '' @ pathStr @ '']''];
          systemPrompts = take 2
            (concat (map (\<lambda>d. case sd_systemPrompt d of
                                 None \<Rightarrow> []
                               | Some p \<Rightarrow> if p = [] then [] else [p])
               (rr_domains routing)));
          parts1 = (if length systemPrompts > 0
                    then parts0 @ [[], ''[Domain Expertise:]'', joinWith newline systemPrompts]
                    else parts0);
          parts2 = (if length (rr_memories routing) > 0
                    then parts1 @ [[], ''[Relevant Memories:]'']
                         @ map (\<lambda>mem. ''- '' @ take 200 (m_content mem) @ ''...'')
                             (take 3 (rr_memories routing))
                    else parts1);
          parts3 = parts2 @ [[], ''[User Request:]'', originalPrompt]
      in joinWith newline parts3)"

text \<open>
  \<open>callAIModel\<close> wraps the call of the external AI client in a try block and turns an error
  into a failed answer. The source fills the try block with a placeholder
  (\<open>placeholderClient\<close>) where the client is to be plugged in; the model takes the client as
  a parameter.
\<close>

type_synonym AIClient = "AIModelConfig \<Rightarrow> string \<Rightarrow> error + string \<times> bool"

definition placeholderClient :: AIClient where
  "placeholderClient config prompt =
     Inr (''['' @ c_provider config @ ''/'' @ c_modelName config @ ''] Response to: ''
            @ take 50 prompt @ ''...'', True)"

definition callAIModel :: "AIClient \<Rightarrow> AIModelConfig \<Rightarrow> string \<Rightarrow> string \<times> bool" where
  "callAIModel client config prompt =
     (case client config prompt of
        Inr answer \<Rightarrow> answer
      | Inl e \<Rightarrow> ([], False))"

text \<open>The two loggers insert a row and swallow any error of the insert.\<close>

definition logRoutingDecision :: "Db \<Rightarrow> RoutingResult \<Rightarrow> unit" where
  "logRoutingDecision db routing = (case insertLog db of Inl e \<Rightarrow> () | Inr u \<Rightarrow> ())"

definition logResponse :: "Db \<Rightarrow> AISystemResult \<Rightarrow> unit" where
  "logResponse db result = (case insertLog db of Inl e \<Rightarrow> () | Inr u \<Rightarrow> ())"

text \<open>
  The clock: \<open>t_config\<close> and \<open>t_route slot\<close> are the values of \<open>Date.now()\<close> that
  \<open>refreshModelConfig\<close> and the \<open>refreshCache\<close> of a slot read, \<open>t_elapsed slot\<close> is the
  latency measured for the slot and \<open>t_total\<close> the one measured for the whole call.
\<close>

record Timing =
  t_config :: int
  t_route :: "ModelSlot \<Rightarrow> int"
  t_elapsed :: "ModelSlot \<Rightarrow> int"
  t_total :: int

text \<open>
  \<open>executeModel\<close>: every statement of its try block returns on well-typed data
  (\<open>autoRoute\<close> and \<open>callAIModel\<close> catch their own errors and the logger is not awaited), so
  the model is the try block; \<open>failedResponse\<close> is what the catch block would return.
\<close>

definition failedResponse ::
  "ModelSlot \<Rightarrow> DeviceMode \<Rightarrow> AIModelConfig \<Rightarrow> int \<Rightarrow> string \<Rightarrow> ModelResponse" where
  "failedResponse modelSlot mode config timeMs message =
     \<lparr>resp_modelSlot = modelSlot, resp_provider = c_provider config,
      resp_modelName = c_modelName config, resp_response = [], resp_success = False,
      resp_timeMs = timeMs, resp_error = Some message,
      resp_routing = \<lparr>rr_mode = mode, rr_nodes = [], rr_stacks = [], rr_domains = [],
                       rr_memories = [], rr_totalDomains = 0, rr_confidence = 0\<rparr>\<rparr>"

definition executeModel ::
  "AIClient \<Rightarrow> Db \<Rightarrow> Timing \<Rightarrow> RouterState \<Rightarrow> AIType \<Rightarrow> ModelSlot \<Rightarrow> string \<Rightarrow> DeviceMode
     \<Rightarrow> AIModelConfig \<Rightarrow> ModelResponse \<times> RouterState" where
  "executeModel client db timing st0 aiType modelSlot prompt mode config =
     (let (routing, st) = autoRoute db (t_route timing modelSlot) st0 aiType modelSlot prompt mode;
          enrichedPrompt = buildContextPrompt prompt routing;
          (text, ok) = callAIModel client config enrichedPrompt;
          timeMs = t_elapsed timing modelSlot;
          logged = logRoutingDecision db routing
      in (\<lparr>resp_modelSlot = modelSlot, resp_provider = c_provider config,
           resp_modelName = c_modelName config, resp_response = text, resp_success = ok,
           resp_timeMs = timeMs, resp_error = None, resp_routing = routing\<rparr>,
          st))"

text \<open>
  \<open>executeAISystem\<close>. The three slots are started together and awaited with
  \<open>Promise.all\<close>; the model runs them in the order of the slots. The result is the value
  returned or the error thrown, with the two module states after the call.
\<close>

definition executeAISystem ::
  "AIClient \<Rightarrow> Db \<Rightarrow> Timing \<Rightarrow> HandlerState \<Rightarrow> RouterState \<Rightarrow> AIType \<Rightarrow> string \<Rightarrow> DeviceMode
     \<Rightarrow> (error + AISystemResult) \<times> HandlerState \<times> RouterState" where
  "executeAISystem client db timing hs0 st0 aiType prompt mode =
     (let hs = refreshModelConfig db (t_config timing) hs0
      in case (getModelConfig hs aiType Slot1, getModelConfig hs aiType Slot2,
               getModelConfig hs aiType Slot3) of
           (Some config1, Some config2, Some config3) \<Rightarrow>
             (let (model1Response, st1) =
                    executeModel client db timing st0 aiType Slot1 prompt mode config1;
                  (model2Response, st2) =
                    executeModel client db timing st1 aiType Slot2 prompt mode config2;
                  (model3Response, st3) =
                    executeModel client db timing st2 aiType Slot3 prompt mode config3
              in case runKnowledgeAlgorithm
                        \<lparr>in_aiType = aiType, in_prompt = prompt,
                         in_responses = [model1Response, model2Response, model3Response]\<rparr> of
                   Inl e \<Rightarrow> (Inl e, hs, st3)
                 | Inr knowledgeResult \<Rightarrow>
                     let result =
                           \<lparr>res_aiType = aiType, res_deviceMode = mode, res_prompt = prompt,
                            res_model1Response = model1Response,
                            res_model2Response = model2Response,
                            res_model3Response = model3Response,
                            res_finalAnswer = fusedAnswer knowledgeResult,
                            res_totalTimeMs = t_total timing,
                            res_qualityScore = qualityScore knowledgeResult\<rparr>;
                         logged = logResponse db result
                     in (Inr result, hs, st3))
         | _ \<Rightarrow> (Inl (MissingModelConfiguration aiType), hs, st0))"


section \<open>Reference notions and example data\<close>


text \<open>A small catalog, a store without rows and a store whose second read fails.\<close>

definition exampleNodeA :: AINode where
  "exampleNodeA =
     \<lparr>n_id = ''node-a'', n_aiType = Brain, n_modelSlot = Some Slot1, n_name = ''Databases'',
      n_label = ''DATABASE'', n_description = None, n_keywords = [''sql'', ''index''],
      n_priority = 10, n_isActive = True\<rparr>"

definition exampleNodeB :: AINode where
  "exampleNodeB =
     \<lparr>n_id = ''node-b'', n_aiType = Brain, n_modelSlot = None, n_name = ''Weather'',
      n_label = ''WEATHER'', n_description = None, n_keywords = [''rain''],
      n_priority = 50, n_isActive = True\<rparr>"

definition exampleNodeC :: AINode where
  "exampleNodeC =
     \<lparr>n_id = ''node-c'', n_aiType = Heart, n_modelSlot = Some Slot2, n_name = ''Code'',
      n_label = ''CODE'', n_description = None, n_keywords = [''bug''],
      n_priority = 90, n_isActive = True\<rparr>"

definition exampleRouterState :: RouterState where
  "exampleRouterState =
     buildLabelIndex
       \<lparr>labelIndex = emptyLabelIndex, allNodes = [exampleNodeB, exampleNodeA, exampleNodeC],
        allStacks = [], allDomains = [], lastCacheRefresh = 1000000\<rparr>"

definition exampleNodeRow :: NodeRow where
  "exampleNodeRow =
     \<lparr>nr_id = ''node-d'', nr_ai_type = System, nr_model_slot = Some Slot3,
      nr_name = ''Disks'', nr_label = ''DISK'', nr_description = None, nr_keywords = None,
      nr_priority = 5, nr_is_active = True\<rparr>"

definition emptyDb :: Db where
  "emptyDb =
     \<lparr>selectNodesQuery = Inr [], selectStacksQuery = Inr [], selectDomainsQuery = Inr [],
      selectMemoriesQuery = (\<lambda>memoryType domainIds limit. Inr []),
      selectModelConfigQuery = Inr [], insertLog = Inr ()\<rparr>"

definition stacksFailDb :: Db where
  "stacksFailDb =
     emptyDb\<lparr>selectNodesQuery := Inr [exampleNodeRow],
             selectStacksQuery := Inl (DbError ''connection lost'')\<rparr>"

text \<open>A store with a catalog of three nodes, three stacks and two domains.\<close>

definition catalogNodeRow :: "string \<Rightarrow> string \<Rightarrow> string list \<Rightarrow> real \<Rightarrow> NodeRow" where
  "catalogNodeRow ident lbl kws prio =
     \<lparr>nr_id = ident, nr_ai_type = Brain, nr_model_slot = Some Slot1, nr_name = lbl,
      nr_label = lbl, nr_description = None, nr_keywords = Some kws, nr_priority = prio,
      nr_is_active = True\<rparr>"

definition catalogStackRow :: "string \<Rightarrow> string \<Rightarrow> string \<Rightarrow> string list \<Rightarrow> real \<Rightarrow> StackRow" where
  "catalogStackRow ident nodeId lbl kws prio =
     \<lparr>sr_id = ident, sr_node_id = nodeId, sr_ai_type = Brain, sr_name = lbl, sr_label = lbl,
      sr_description = None, sr_keywords = Some kws, sr_priority = prio, sr_is_active = True\<rparr>"

definition catalogDomainRow :: "string \<Rightarrow> string \<Rightarrow> string \<Rightarrow> string list \<Rightarrow> real \<Rightarrow> DomainRow" where
  "catalogDomainRow ident stackId nodeId kws prio =
     \<lparr>dr_id = ident, dr_stack_id = stackId, dr_node_id = nodeId, dr_ai_type = Brain,
      dr_name = ident, dr_description = None, dr_keywords = Some kws,
      dr_system_prompt = Some ''You are a database expert.'', dr_priority = prio,
      dr_is_active = True\<rparr>"

definition catalogDb :: Db where
  "catalogDb =
     emptyDb\<lparr>selectNodesQuery :=
               Inr [catalogNodeRow ''n1'' ''SQL'' [''index''] 30,
                    catalogNodeRow ''n2'' ''WEB'' [''css''] 20,
                    catalogNodeRow ''n3'' ''DISK'' [''index''] 10],
             selectStacksQuery :=
               Inr [catalogStackRow ''s1'' ''n1'' ''PG'' [''vacuum''] 9,
                    catalogStackRow ''s2'' ''n1'' ''IDX'' [''index''] 8,
                    catalogStackRow ''s3'' ''n3'' ''BTREE'' [''index''] 7],
             selectDomainsQuery :=
               Inr [catalogDomainRow ''d1'' ''s2'' ''n1'' [''slow''] 5,
                    catalogDomainRow ''d2'' ''s2'' ''n1'' [''unique''] 4]\<rparr>"

text \<open>
  \<open>weightsAreShares quality valid w\<close>: the weights \<open>w\<close> sum to 1 within \<open>10\<^sup>-\<^sup>9\<close>, the slot
  of every valid response carries the response's quality divided by the total quality of
  the valid responses, and every other slot carries 0.
  \<open>roundedWeightsAreShares rnd scores w\<close> is the same of scores whose total and quotients
  are rounded by \<open>rnd\<close>: the rounded total is the sum of the qualities up to the rounding of
  at most three additions, and the slot of every score carries the rounded quotient of its
  quality by the rounded total. \<open>weightSum\<close> is the sum of the three weights.
\<close>

definition weightsAreShares ::
  "(ModelResponse \<Rightarrow> real) \<Rightarrow> ModelResponse list \<Rightarrow> ContributionWeights \<Rightarrow> bool" where
  "weightsAreShares quality validResponses w \<longleftrightarrow>
     \<bar>model1 w + model2 w + model3 w - 1\<bar> \<le> 1 / 10^9
     \<and> (\<forall>r \<in> set validResponses.
           getWeight w (resp_modelSlot r) = quality r / sum_list (map quality validResponses))
     \<and> (\<forall>slot. slot \<notin> resp_modelSlot ` set validResponses \<longrightarrow> getWeight w slot = 0)"

definition roundedWeightsAreShares ::
  "(real \<Rightarrow> real) \<Rightarrow> ScoredResponse list \<Rightarrow> ContributionWeights \<Rightarrow> bool" where
  "roundedWeightsAreShares rnd scores w \<longleftrightarrow>
     \<bar>model1 w + model2 w + model3 w - 1\<bar> \<le> 1 / 10^9
     \<and> \<bar>totalQualityFl rnd scores - sum_list (map q_quality scores)\<bar> \<le> 12 / 2^53
     \<and> (\<forall>s \<in> set scores.
           getWeight w (resp_modelSlot (q_response s))
             = rnd (q_quality s / totalQualityFl rnd scores))
     \<and> (\<forall>slot. slot \<notin> (\<lambda>s. resp_modelSlot (q_response s)) ` set scores
           \<longrightarrow> getWeight w slot = 0)"

definition weightSum :: "ContributionWeights \<Rightarrow> real" where
  "weightSum w = model1 w + model2 w + model3 w"

text \<open>Model responses for the knowledge algorithms.\<close>

definition emptyRouting :: "DeviceMode \<Rightarrow> RoutingResult" where
  "emptyRouting mode =
     \<lparr>rr_mode = mode, rr_nodes = [], rr_stacks = [], rr_domains = [], rr_memories = [],
      rr_totalDomains = 0, rr_confidence = 0\<rparr>"

definition exampleResponse :: "ModelSlot \<Rightarrow> string \<Rightarrow> bool \<Rightarrow> int \<Rightarrow> ModelResponse" where
  "exampleResponse slot text ok ms =
     \<lparr>resp_modelSlot = slot, resp_provider = ''provider'', resp_modelName = ''model'',
      resp_response = text, resp_success = ok, resp_timeMs = ms, resp_error = None,
      resp_routing = emptyRouting Standard\<rparr>"

definition exampleInput :: "AIType \<Rightarrow> ModelResponse list \<Rightarrow> KnowledgeAlgorithmInput" where
  "exampleInput aiType rs = \<lparr>in_aiType = aiType, in_prompt = ''How do I speed up my query?'', in_responses = rs\<rparr>"

definition failedResponses :: "ModelResponse list" where
  "failedResponses =
     [exampleResponse Slot1 ''timeout'' False 30000,
      exampleResponse Slot2 ''   '' True 700,
      exampleResponse Slot3 [] False 12]"

definition goodResponses :: "ModelResponse list" where
  "goodResponses =
     [exampleResponse Slot1 ''Use indexes on foreign keys'' True 700,
      exampleResponse Slot2 ''Use indexes on foreign keys for speed. The planner can then avoid a full scan.'' True 900,
      exampleResponse Slot3 [] False 12]"

definition threeResponses :: "ModelResponse list" where
  "threeResponses =
     [exampleResponse Slot1 ''Use indexes on foreign keys'' True 700,
      exampleResponse Slot2 ''Use indexes on foreign keys for speed. The planner can then avoid a full scan.'' True 900,
      exampleResponse Slot3 ''Add an index'' True 800]"

text \<open>
  Scores as double arithmetic yields them: the second quality is the double below 0.8.
\<close>

definition doubleScores :: "ScoredResponse list" where
  "doubleScores =
     [\<lparr>q_response = exampleResponse Slot2 ''Rebuild the index.'' True 900, q_quality = 8/10\<rparr>,
      \<lparr>q_response = exampleResponse Slot1 ''Rebuild the index'' True 700,
        q_quality = 7999999999999999 / 10^16\<rparr>,
      \<lparr>q_response = exampleResponse Slot3 ''Restart it'' True 500, q_quality = 7/10\<rparr>]"

text \<open>A rounding to the nearest multiple of \<open>2\<^sup>-\<^sup>6\<^sup>0\<close>, which is within double precision.\<close>

definition roundTo60 :: "real \<Rightarrow> real" where
  "roundTo60 x = of_int \<lfloor>x * 2^60 + 1/2\<rfloor> / 2^60"

definition sameSlotResponses :: "ModelResponse list" where
  "sameSlotResponses =
     [exampleResponse Slot1 ''Use indexes on foreign keys'' True 700,
      exampleResponse Slot1 ''Use indexes on foreign keys'' True 700]"

text \<open>
  \<open>configMissing hs aiType\<close>: the configuration cache holds no row for at least one of the
  three slots of the AI type. \<open>wellFormedResult\<close>: the result echoes the request, holds the
  response of each slot in its place, and carries a non-empty answer and a quality between
  0 and 1.
\<close>

definition wellFormedResult :: "AIType \<Rightarrow> string \<Rightarrow> DeviceMode \<Rightarrow> AISystemResult \<Rightarrow> bool" where
  "wellFormedResult aiType prompt mode result \<longleftrightarrow>
     res_aiType result = aiType \<and> res_deviceMode result = mode \<and> res_prompt result = prompt
     \<and> resp_modelSlot (res_model1Response result) = Slot1
     \<and> resp_modelSlot (res_model2Response result) = Slot2
     \<and> resp_modelSlot (res_model3Response result) = Slot3
     \<and> res_finalAnswer result \<noteq> []
     \<and> 0 \<le> res_qualityScore result \<and> res_qualityScore result \<le> 1"

definition configMissing :: "HandlerState \<Rightarrow> AIType \<Rightarrow> bool" where
  "configMissing hs aiType \<longleftrightarrow>
     getOrEmpty (modelConfigCache hs) (aiType, Slot1) = []
     \<or> getOrEmpty (modelConfigCache hs) (aiType, Slot2) = []
     \<or> getOrEmpty (modelConfigCache hs) (aiType, Slot3) = []"

text \<open>Configuration rows, stores and clients for the handler.\<close>

definition exampleConfigRow :: "AIType \<Rightarrow> ModelSlot \<Rightarrow> bool \<Rightarrow> ConfigRow" where
  "exampleConfigRow aiType slot primary =
     \<lparr>cr_id = ''cfg'', cr_ai_type = aiType, cr_model_slot = slot, cr_provider = ''provider'',
      cr_model_name = ''model'', cr_is_primary = primary, cr_is_backup = False,
      cr_priority = 1, cr_max_tokens = 1024, cr_temperature = 0.7, cr_timeout_ms = 30000,
      cr_is_active = True\<rparr>"

definition twoSlotsDb :: Db where
  "twoSlotsDb =
     emptyDb\<lparr>selectModelConfigQuery :=
               Inr [exampleConfigRow Brain Slot1 True, exampleConfigRow Brain Slot2 False]\<rparr>"

definition threeSlotsDb :: Db where
  "threeSlotsDb =
     emptyDb\<lparr>selectModelConfigQuery :=
               Inr [exampleConfigRow Brain Slot1 True, exampleConfigRow Brain Slot2 False,
                    exampleConfigRow Brain Slot3 False],
             insertLog := Inl (DbError ''log table missing'')\<rparr>"

definition failingClient :: AIClient where
  "failingClient config prompt = Inl (ClientError ''provider unreachable'')"

definition exampleTiming :: Timing where
  "exampleTiming =
     \<lparr>t_config = 1000000, t_route = (\<lambda>slot. 1000001), t_elapsed = (\<lambda>slot. 800),
      t_total = 900\<rparr>"

section \<open>Properties of the keyword scorer\<close>

text \<open>\<open>str_includes\<close> is the substring test.\<close>

lemma startsWith_iff: "startsWith s t \<longleftrightarrow> (\<exists>after. s = t @ after)"
  by (induction s t rule: startsWith.induct) auto

lemma str_includes_iff: "str_includes s t \<longleftrightarrow> (\<exists>before after. s = before @ t @ after)"
proof (induction s)
  case Nil
  then show ?case by simp
next
  case (Cons a s)
  have "(\<exists>before after. a # s = before @ t @ after)
      \<longleftrightarrow> (\<exists>after. a # s = t @ after) \<or> (\<exists>before after. s = before @ t @ after)"
    by (auto simp: Cons_eq_append_conv)
  with Cons show ?case
    by (simp add: startsWith_iff)
qed

lemma str_includes_Nil: "str_includes s []"
  by (induction s) auto

lemma wordRuns_split:
  "wordRuns run s =
     (if run = [] \<and> takeWhile isWordChar s = [] then [] else [rev run @ takeWhile isWordChar s])
     @ (case dropWhile isWordChar s of [] \<Rightarrow> [] | c # r \<Rightarrow> wordRuns [] r)"
  by (induction s arbitrary: run) auto

lemma wordRuns_skip:
  "wordRuns [] (dropWhile (\<lambda>c. \<not> isWordChar c) s) = wordRuns [] s"
  by (induction s) auto

text \<open>The non-empty pieces of \<open>split(/\W+/)\<close> are the maximal runs of word characters.\<close>

lemma splitRuns_wordRuns:
  "filter (\<lambda>w. w \<noteq> []) (splitRuns (\<lambda>c. \<not> isWordChar c) s) = wordRuns [] s"
proof (induction s rule: length_induct)
  case (1 s)
  let ?sep = "\<lambda>c. \<not> isWordChar c"
  let ?rest = "dropWhile isWordChar s"
  show ?case
  proof (cases "?rest = []")
    case True
    show ?thesis
      by (subst splitRuns.simps, subst wordRuns_split) (simp add: True Let_def)
  next
    case False
    then obtain c r where rest: "?rest = c # r"
      by (cases ?rest) auto
    then have c: "\<not> isWordChar c"
      using hd_dropWhile [of isWordChar s] by simp
    have "length (dropWhile ?sep ?rest) < length s"
    proof -
      have "length (dropWhile ?sep ?rest) \<le> length r"
        using rest c by (simp add: length_dropWhile_le)
      also have "\<dots> < length ?rest"
        using rest by simp
      also have "\<dots> \<le> length s"
        by (rule length_dropWhile_le)
      finally show ?thesis .
    qed
    with 1 have "filter (\<lambda>w. w \<noteq> []) (splitRuns ?sep (dropWhile ?sep ?rest))
        = wordRuns [] (dropWhile ?sep ?rest)"
      by blast
    also have "\<dots> = wordRuns [] r"
      using rest c wordRuns_skip [of r] by simp
    finally have IH:
      "filter (\<lambda>w. w \<noteq> []) (splitRuns ?sep (dropWhile ?sep r)) = wordRuns [] r"
      using rest c by simp
    show ?thesis
      by (subst splitRuns.simps, subst wordRuns_split) (simp add: IH rest c Let_def)
  qed
qed

text \<open>The scan finds the maximal runs, and only those.\<close>

lemma wordRuns_sound:
  "w \<in> set (wordRuns [] s) \<Longrightarrow> isMaximalWordRun s w"
proof (induction s arbitrary: w rule: length_induct)
  case (1 s)
  let ?tw = "takeWhile isWordChar s"
  let ?dw = "dropWhile isWordChar s"
  have split: "wordRuns [] s = (if ?tw = [] then [] else [?tw])
      @ (case ?dw of [] \<Rightarrow> [] | c # r \<Rightarrow> wordRuns [] r)"
    using wordRuns_split [of "[]" s] by simp
  have s: "s = ?tw @ ?dw"
    by simp
  from "1.prems" have mem: "w \<in> set ((if ?tw = [] then [] else [?tw])
      @ (case ?dw of [] \<Rightarrow> [] | c # r \<Rightarrow> wordRuns [] r))"
    unfolding split .
  have "(?tw \<noteq> [] \<and> w = ?tw) \<or> (\<exists>c r. ?dw = c # r \<and> w \<in> set (wordRuns [] r))"
  proof (cases ?dw)
    case Nil
    with mem show ?thesis
      by (simp split: if_splits)
  next
    case (Cons c r)
    with mem show ?thesis
      by (auto split: if_splits)
  qed
  then consider (head) "w = ?tw" "?tw \<noteq> []"
    | (tail) c r where "?dw = c # r" "w \<in> set (wordRuns [] r)"
    by blast
  then show ?case
  proof cases
    case head
    have "?dw = [] \<or> \<not> isWordChar (hd ?dw)"
      using hd_dropWhile [of isWordChar s] by blast
    moreover have "\<forall>c \<in> set ?tw. isWordChar c"
      using set_takeWhileD by fastforce
    ultimately show ?thesis
      unfolding isMaximalWordRun_def using head s
      by (metis append_Nil)
  next
    case tail
    then have c: "\<not> isWordChar c"
      using hd_dropWhile [of isWordChar s] by simp
    have "length r < length s"
      using tail(1) length_dropWhile_le [of isWordChar s] by simp
    with 1 tail(2) have "isMaximalWordRun r w"
      by blast
    then obtain before after where w: "w \<noteq> []" "\<forall>c \<in> set w. isWordChar c"
      and r: "r = before @ w @ after"
      and b: "before = [] \<or> \<not> isWordChar (last before)"
      and a: "after = [] \<or> \<not> isWordChar (hd after)"
      unfolding isMaximalWordRun_def by blast
    have "s = (?tw @ c # before) @ w @ after"
      using s tail(1) r by simp
    moreover have "\<not> isWordChar (last (?tw @ c # before))"
      using b c by (cases "before = []") simp_all
    ultimately show ?thesis
      unfolding isMaximalWordRun_def using w a by blast
  qed
qed

lemma wordRuns_complete:
  "isMaximalWordRun s w \<Longrightarrow> w \<in> set (wordRuns [] s)"
proof (induction s arbitrary: w rule: length_induct)
  case (1 s)
  let ?tw = "takeWhile isWordChar s"
  let ?dw = "dropWhile isWordChar s"
  have split: "wordRuns [] s = (if ?tw = [] then [] else [?tw])
      @ (case ?dw of [] \<Rightarrow> [] | c # r \<Rightarrow> wordRuns [] r)"
    using wordRuns_split [of "[]" s] by simp
  from "1.prems" obtain before after where w: "w \<noteq> []" "\<forall>c \<in> set w. isWordChar c"
    and s: "s = before @ w @ after"
    and b: "before = [] \<or> \<not> isWordChar (last before)"
    and a: "after = [] \<or> \<not> isWordChar (hd after)"
    unfolding isMaximalWordRun_def by blast
  show ?case
  proof (cases "before = []")
    case True
    have "takeWhile isWordChar (w @ after) = w"
      using w(2) a by (cases after) (simp_all add: takeWhile_append2)
    with True s have tw: "?tw = w"
      by simp
    show ?thesis
      by (subst split) (simp add: tw w(1))
  next
    case False
    with b have nw: "\<not> isWordChar (last before)"
      by simp
    have x: "last before \<in> set before"
      using False by simp
    have dw: "?dw = dropWhile isWordChar before @ w @ after"
      unfolding s using x nw by (rule dropWhile_append1)
    from x nw obtain c r where cr: "dropWhile isWordChar before = c # r"
      by (cases "dropWhile isWordChar before") (auto simp: dropWhile_eq_Nil_conv)
    have "r = [] \<or> \<not> isWordChar (last r)"
    proof (cases "r = []")
      case True
      then show ?thesis by simp
    next
      case False
      have "last (dropWhile isWordChar before) = last before"
        using cr by (metis append_take_drop_id last_appendR list.discI takeWhile_dropWhile_id)
      with False cr nw show ?thesis
        by simp
    qed
    then have "isMaximalWordRun (r @ w @ after) w"
      unfolding isMaximalWordRun_def using w a by blast
    moreover have "length (r @ w @ after) < length s"
      using dw cr length_dropWhile_le [of isWordChar s] by simp
    ultimately have "w \<in> set (wordRuns [] (r @ w @ after))"
      using 1 by blast
    then show ?thesis
      by (simp add: split dw cr)
  qed
qed

lemma set_spec_tokens:
  "set (spec_tokens text) = {w. isMaximalWordRun text w \<and> length w > 2}"
  using wordRuns_sound wordRuns_complete by (auto simp: spec_tokens_def)

lemma promptWords_spec_tokens: "promptWords s = spec_tokens s"
proof -
  have "filter (\<lambda>w. length w > 2)
          (filter (\<lambda>w. w \<noteq> []) (splitRuns (\<lambda>c. \<not> isWordChar c) s))
      = filter (\<lambda>w. length w > 2) (splitRuns (\<lambda>c. \<not> isWordChar c) s)"
    by (auto simp: filter_filter intro: filter_cong)
  then show ?thesis
    by (simp add: promptWords_def spec_tokens_def splitRuns_wordRuns)
qed

lemma foldl_keywordStep:
  "foldl (keywordStep pl ws) s ks = s + sum_list (map (keywordStep pl ws 0) ks)"
proof (induction ks arbitrary: s)
  case Nil
  then show ?case by simp
next
  case (Cons k ks)
  have "keywordStep pl ws s k = s + keywordStep pl ws 0 k"
    by (simp add: keywordStep_def Let_def)
  with Cons show ?case by simp
qed

lemma keywordStep_spec:
  "keywordStep pl (promptWords pl) 0 k = spec_keywordPoints pl k"
  by (auto simp: keywordStep_def spec_keywordPoints_def Let_def list_ex_iff
      promptWords_spec_tokens)

lemma scoreByKeywords_snoc:
  "scoreByKeywords prompt (ks @ [k]) label =
     keywordStep (toLowerCase prompt) (promptWords (toLowerCase prompt))
       (scoreByKeywords prompt ks label) k"
  by (simp add: scoreByKeywords_def Let_def)

text \<open>The empty label scores as no label does.\<close>

lemma scoreByKeywords_empty_label:
  "scoreByKeywords prompt keywords (Some []) = scoreByKeywords prompt keywords None"
  by (simp add: scoreByKeywords_def)

text \<open>
  C5, as stated, fails for the empty label: the guard \<open>label && \<dots>\<close> of the source gives the
  empty string no points, while the empty string occurs in every prompt.
\<close>

theorem scoreByKeywords_empty_label_counterexample:
  "scoreByKeywords ''x'' [] (Some []) = 0 \<and> spec_score ''x'' [] (Some []) = 5"
  by (simp add: scoreByKeywords_def spec_score_def spec_labelPoints_def toLowerCase_def)

text \<open>
  C5 (amended): for every prompt, every keyword list and every optional label other than
  the empty string, \<open>scoreByKeywords\<close> equals the reference definition: lower-case the
  prompt; the tokens are the maximal word-character runs longer than 2; 5 points if the
  lower-cased label occurs in the lowered prompt; then for each keyword 2 points if its
  lower-cased form occurs in the lowered prompt, else 1 point if some token is a substring
  of the keyword or the keyword a substring of some token, else none.
\<close>

theorem scoreByKeywords_refines_reference:
  assumes "label \<noteq> Some []"
  shows "scoreByKeywords prompt keywords label = spec_score prompt keywords label"
proof -
  have "(case label of
           None \<Rightarrow> 0
         | Some l \<Rightarrow>
             if l \<noteq> [] \<and> str_includes (toLowerCase prompt) (toLowerCase l) then 5 else (0::int))
       = spec_labelPoints (toLowerCase prompt) label"
    using assms by (cases label) (auto simp: spec_labelPoints_def)
  then show ?thesis
    by (simp add: scoreByKeywords_def spec_score_def Let_def foldl_keywordStep keywordStep_spec
        cong: map_cong)
qed

theorem scoreByKeywords_refines_reference_witness:
  "Some ''FIX'' \<noteq> Some []
   \<and> scoreByKeywords ''Fix the Database index error''
        [''database'', ''dat'', ''indexes'', ''zzz''] (Some ''FIX'') = 10
   \<and> spec_score ''Fix the Database index error''
        [''database'', ''dat'', ''indexes'', ''zzz''] (Some ''FIX'') = 10"
proof -
  have label: "Some ''FIX'' \<noteq> Some []"
    by simp
  have "scoreByKeywords ''Fix the Database index error''
          [''database'', ''dat'', ''indexes'', ''zzz''] (Some ''FIX'') = 10"
    by code_simp
  with label scoreByKeywords_refines_reference [OF label,
      of "''Fix the Database index error''" "[''database'', ''dat'', ''indexes'', ''zzz'']"]
  show ?thesis
    by simp
qed

text \<open>
  C9: for a fixed prompt, label and keyword list \<open>ks\<close>, appending a keyword whose lower-cased
  form occurs in the lower-cased prompt never decreases the score.
\<close>

theorem scoreByKeywords_exact_match_monotone:
  assumes "str_includes (toLowerCase prompt) (toLowerCase k)"
  shows "scoreByKeywords prompt (ks @ [k]) label \<ge> scoreByKeywords prompt ks label"
  using assms by (simp add: scoreByKeywords_snoc keywordStep_def Let_def)

theorem scoreByKeywords_exact_match_monotone_witness:
  "str_includes (toLowerCase ''Slow SQL query'') (toLowerCase ''SQL'')
   \<and> scoreByKeywords ''Slow SQL query'' ([''index''] @ [''SQL'']) (Some ''db'')
       \<ge> scoreByKeywords ''Slow SQL query'' [''index''] (Some ''db'')"
proof -
  have match: "str_includes (toLowerCase ''Slow SQL query'') (toLowerCase ''SQL'')"
    by code_simp
  from match scoreByKeywords_exact_match_monotone [OF match, of "[''index'']" "Some ''db''"]
  show ?thesis
    by simp
qed


section \<open>Properties of the auto-router\<close>


lemma length_slice0_le: "length (slice0 xs (int k)) \<le> k"
  by (simp add: slice0_def)

lemma length_selectTopItems_le: "length (selectTopItems ns p (int k)) \<le> k"
  by (simp add: selectTopItems_def Let_def length_slice0_le)

lemma length_selectNodes_le: "length (selectNodes st a m p (int k)) \<le> k"
  by (simp add: selectNodes_def Let_def length_selectTopItems_le)

lemma length_concat_map_le:
  assumes "\<And>x. x \<in> set xs \<Longrightarrow> length (f x) \<le> k"
  shows "length (concat (map f xs)) \<le> k * length xs"
  using assms
proof (induction xs)
  case Nil
  then show ?case by simp
next
  case (Cons x xs)
  then have "length (f x) \<le> k" and "length (concat (map f xs)) \<le> k * length xs"
    by simp_all
  then show ?case by simp
qed

lemma length_selectStacks_le:
  "length (selectStacks st ns p (int k)) \<le> k * length ns"
  unfolding selectStacks_def
  by (rule length_concat_map_le) (simp add: Let_def length_slice0_le)

lemma length_selectDomains_le:
  "length (selectDomains st ss ns p (int k)) \<le> k * length ss"
  unfolding selectDomains_def Let_def
  by (rule length_concat_map_le) (simp add: length_slice0_le)

text \<open>
  C2: for every \<open>autoRoute\<close> call, whatever the mode and the cache, the result has at most
  \<open>MODE_LIMITS[m].nodes\<close> nodes, at most \<open>MODE_LIMITS[m].stacks\<close> stacks per selected node
  and at most \<open>MODE_LIMITS[m].domains\<close> domains per selected stack, the limits being
  (2,1,1), (2,2,2) and (3,3,3).
\<close>

theorem autoRoute_within_mode_limits:
  "length (rr_nodes (fst (autoRoute db now st aiType modelSlot prompt mode)))
     \<le> lim_nodes (MODE_LIMITS mode)
   \<and> length (rr_stacks (fst (autoRoute db now st aiType modelSlot prompt mode)))
     \<le> lim_stacks (MODE_LIMITS mode)
        * length (rr_nodes (fst (autoRoute db now st aiType modelSlot prompt mode)))
   \<and> length (rr_domains (fst (autoRoute db now st aiType modelSlot prompt mode)))
     \<le> lim_domains (MODE_LIMITS mode)
        * length (rr_stacks (fst (autoRoute db now st aiType modelSlot prompt mode)))
   \<and> MODE_LIMITS Standard = \<lparr>lim_nodes = 2, lim_stacks = 1, lim_domains = 1\<rparr>
   \<and> MODE_LIMITS Professional = \<lparr>lim_nodes = 2, lim_stacks = 2, lim_domains = 2\<rparr>
   \<and> MODE_LIMITS Advanced = \<lparr>lim_nodes = 3, lim_stacks = 3, lim_domains = 3\<rparr>"
  by (simp add: autoRoute_def Let_def length_selectNodes_le length_selectStacks_le
      length_selectDomains_le)

theorem autoRoute_within_mode_limits_witness:
  "map i_id (rr_nodes (fst (autoRoute catalogDb 1000000 initialRouterState Brain Slot1
       ''slow SQL index'' Standard))) = [''n1'', ''n3'']
   \<and> length (rr_stacks (fst (autoRoute catalogDb 1000000 initialRouterState Brain Slot1
       ''slow SQL index'' Standard))) \<le> 1 * 2
   \<and> length (rr_domains (fst (autoRoute catalogDb 1000000 initialRouterState Brain Slot1
       ''slow SQL index'' Standard)))
       \<le> 1 * length (rr_stacks (fst (autoRoute catalogDb 1000000 initialRouterState Brain Slot1
           ''slow SQL index'' Standard)))"
proof -
  have nodes: "map i_id (rr_nodes (fst (autoRoute catalogDb 1000000 initialRouterState Brain Slot1
       ''slow SQL index'' Standard))) = [''n1'', ''n3'']"
    by code_simp
  then have "length (rr_nodes (fst (autoRoute catalogDb 1000000 initialRouterState Brain Slot1
       ''slow SQL index'' Standard))) = 2"
    by (metis length_Cons length_map list.size(3) numeral_2_eq_2)
  with nodes autoRoute_within_mode_limits [of catalogDb 1000000 initialRouterState Brain Slot1
      "''slow SQL index''" Standard]
  show ?thesis
    by simp
qed






section \<open>Properties of the catalog cache\<close>

text \<open>
  C8, as stated, fails in its last clause: a reload is three backing-store reads (nodes,
  stacks, domains), so two calls within the window perform three reads, not one.
\<close>

theorem refreshCache_read_count_counterexample:
  "snd (refreshCache emptyDb 1000000 initialRouterState)
     + snd (refreshCache emptyDb 1000001 (fst (refreshCache emptyDb 1000000 initialRouterState)))
   = 3
   \<and> snd (refreshCache emptyDb 1000000 initialRouterState)
     + snd (refreshCache emptyDb 1000001 (fst (refreshCache emptyDb 1000000 initialRouterState)))
   \<noteq> 1"
  by (simp add: refreshCache_def emptyDb_def initialRouterState_def CACHE_TTL_MS_def Let_def
      buildLabelIndex_def)

text \<open>
  C8 (amended): a second \<open>refreshCache\<close> call less than 60000 ms after a successful refresh
  performs no backing-store read and leaves the snapshot, the label indices and the refresh
  timestamp unchanged, so the two calls perform exactly the three reads of the first
  call's one reload.
\<close>

theorem refreshCache_within_ttl_noop:
  assumes "CACHE_TTL_MS \<le> now0 - lastCacheRefresh st0"
      and "selectNodesQuery db0 = Inr nodeRows"
      and "selectStacksQuery db0 = Inr stackRows"
      and "selectDomainsQuery db0 = Inr domainRows"
      and "now1 - now0 < CACHE_TTL_MS"
  shows "snd (refreshCache db0 now0 st0) = 3
     \<and> lastCacheRefresh (fst (refreshCache db0 now0 st0)) = now0
     \<and> refreshCache db1 now1 (fst (refreshCache db0 now0 st0))
         = (fst (refreshCache db0 now0 st0), 0)
     \<and> snd (refreshCache db0 now0 st0)
         + snd (refreshCache db1 now1 (fst (refreshCache db0 now0 st0))) = 3"
proof -
  have first: "refreshCache db0 now0 st0 =
      ((buildLabelIndex (st0\<lparr>allNodes := map nodeOfRow nodeRows,
           allStacks := map stackOfRow stackRows,
           allDomains := map domainOfRow domainRows\<rparr>))\<lparr>lastCacheRefresh := now0\<rparr>, 3)"
    using assms(1-4) by (simp add: refreshCache_def Let_def)
  have last: "lastCacheRefresh (fst (refreshCache db0 now0 st0)) = now0"
    by (simp add: first)
  have second: "refreshCache db1 now1 (fst (refreshCache db0 now0 st0))
         = (fst (refreshCache db0 now0 st0), 0)"
    using assms(5) last by (simp add: refreshCache_def)
  from first last second show ?thesis
    by simp
qed

theorem refreshCache_within_ttl_noop_witness:
  "CACHE_TTL_MS \<le> 1000000 - lastCacheRefresh initialRouterState
   \<and> 1059999 - 1000000 < CACHE_TTL_MS
   \<and> snd (refreshCache emptyDb 1000000 initialRouterState) = 3
   \<and> refreshCache stacksFailDb 1059999 (fst (refreshCache emptyDb 1000000 initialRouterState))
       = (fst (refreshCache emptyDb 1000000 initialRouterState), 0)"
proof -
  have due: "CACHE_TTL_MS \<le> 1000000 - lastCacheRefresh initialRouterState"
    by (simp add: CACHE_TTL_MS_def initialRouterState_def)
  have within: "1059999 - 1000000 < CACHE_TTL_MS"
    by (simp add: CACHE_TTL_MS_def)
  have "selectNodesQuery emptyDb = Inr []" "selectStacksQuery emptyDb = Inr []"
    "selectDomainsQuery emptyDb = Inr []"
    by (simp_all add: emptyDb_def)
  from refreshCache_within_ttl_noop [OF due this within, of stacksFailDb] due within
  show ?thesis
    by simp
qed

text \<open>
  An error of the first read leaves the state as it was (the function is total: no error
  of a read leaves \<open>refreshCache\<close>).
\<close>

lemma refreshCache_first_read_error:
  assumes "selectNodesQuery db = Inl e"
  shows "fst (refreshCache db now st) = st"
  using assms by (simp add: refreshCache_def)

text \<open>
  C3 (a backing-store error during \<open>refreshCache\<close> should leave the cached snapshot
  unchanged, also when it occurs on the second or third read), at a failing input: the
  cache holds three nodes, the nodes read returns one new row and the stacks read raises.
  The call returns after two reads with \<open>allNodes\<close> already replaced, while the label index
  still lists the old nodes.
\<close>

theorem refreshCache_partial_update_on_error:
  "refreshCache stacksFailDb 2000000 exampleRouterState
     = (exampleRouterState\<lparr>allNodes := [nodeOfRow exampleNodeRow]\<rparr>, 2)
   \<and> allNodes (fst (refreshCache stacksFailDb 2000000 exampleRouterState))
       \<noteq> allNodes exampleRouterState
   \<and> labelIndex (fst (refreshCache stacksFailDb 2000000 exampleRouterState))
       = labelIndex exampleRouterState
   \<and> getOrEmpty (nodesByModel (labelIndex (fst (refreshCache stacksFailDb 2000000 exampleRouterState)))) Slot1
       = [exampleNodeA]"
proof -
  have last: "lastCacheRefresh exampleRouterState = 1000000"
    by (simp add: exampleRouterState_def buildLabelIndex_def)
  have nodes: "allNodes exampleRouterState = [exampleNodeB, exampleNodeA, exampleNodeC]"
    by (simp add: exampleRouterState_def buildLabelIndex_def)
  have call: "refreshCache stacksFailDb 2000000 exampleRouterState
     = (exampleRouterState\<lparr>allNodes := [nodeOfRow exampleNodeRow]\<rparr>, 2)"
    by (simp add: refreshCache_def last CACHE_TTL_MS_def stacksFailDb_def emptyDb_def Let_def)
  have idx: "getOrEmpty (nodesByModel (labelIndex exampleRouterState)) Slot1 = [exampleNodeA]"
    by (simp add: exampleRouterState_def buildLabelIndex_def indexNode_def emptyLabelIndex_def
        exampleNodeA_def exampleNodeB_def exampleNodeC_def pushAt_def getOrEmpty_def)
  show ?thesis
    by (simp add: call nodes idx)
qed

section \<open>Properties of the knowledge algorithms\<close>

lemma trim_Nil: "trim [] = []"
  by (simp add: trim_def)

lemma isValidResponse_nonempty:
  "isValidResponse r \<Longrightarrow> resp_success r \<and> resp_response r \<noteq> []"
  by (auto simp: isValidResponse_def trim_Nil)

lemma calculateResponseQuality_range:
  assumes "resp_success r" and "resp_response r \<noteq> []"
  shows "1/2 \<le> calculateResponseQuality r \<and> calculateResponseQuality r \<le> 1"
  using assms by (simp add: calculateResponseQuality_def Let_def)

lemma calculateResponseQuality_zero:
  assumes "\<not> resp_success r \<or> resp_response r = []"
  shows "calculateResponseQuality r = 0"
  using assms by (auto simp: calculateResponseQuality_def)

lemma heartQuality_range:
  assumes "isValidResponse r"
  shows "1/2 \<le> heartQuality r \<and> heartQuality r \<le> 1"
proof -
  from assms have "1/2 \<le> calculateResponseQuality r"
    using calculateResponseQuality_range isValidResponse_nonempty by blast
  then show ?thesis
    by (simp add: heartQuality_def Let_def)
qed

lemma systemQuality_range:
  assumes "isValidResponse r"
  shows "1/2 \<le> systemQuality r \<and> systemQuality r \<le> 1"
proof -
  from assms have "1/2 \<le> calculateResponseQuality r"
    using calculateResponseQuality_range isValidResponse_nonempty by blast
  then show ?thesis
    by (simp add: systemQuality_def Let_def)
qed

lemma totalQuality_sum_list: "totalQuality scores = sum_list (map q_quality scores)"
proof -
  have "foldl (\<lambda>sum s. sum + q_quality s) a scores = a + sum_list (map q_quality scores)" for a
    by (induction scores arbitrary: a) simp_all
  then show ?thesis
    by (simp add: totalQuality_def)
qed

lemma sum_list_insort_key:
  "sum_list (map g (insort_key f x xs)) = g x + sum_list (map g (xs :: 'a list)) "
  for g :: "'a \<Rightarrow> real"
  by (induction xs) simp_all

lemma sum_list_sortByScoreDesc:
  "sum_list (map g (sortByScoreDesc f xs)) = sum_list (map g xs)" for g :: "'a \<Rightarrow> real"
  by (induction xs) (simp_all add: sortByScoreDesc_def sum_list_insort_key)

lemma set_sortByScoreDesc: "set (sortByScoreDesc f xs) = set xs"
  by (simp add: sortByScoreDesc_def)

lemma sortByScoreDesc_Nil_iff: "sortByScoreDesc f xs = [] \<longleftrightarrow> xs = []"
  by (metis length_0_conv length_sort sortByScoreDesc_def)

lemma sum_list_pos_of_half:
  assumes "xs \<noteq> []" and "\<And>x. x \<in> set xs \<Longrightarrow> (1/2::real) \<le> g x"
  shows "0 < sum_list (map g xs)"
  using assms
proof (induction xs)
  case Nil
  then show ?case by simp
next
  case (Cons x xs)
  have "0 \<le> sum_list (map g xs)"
    by (rule sum_list_nonneg) (use Cons.prems in force)
  moreover have "1/2 \<le> g x"
    using Cons.prems by simp
  ultimately show ?case by simp
qed

text \<open>
  C10: a successful response with non-empty text has a quality in the closed interval from
  0.5 to 1, and a failed or empty one has quality 0; so whenever at least one valid
  response exists, the total quality that divides the contribution weights is positive,
  in each of the three variants.
\<close>

theorem quality_range_and_positive_total:
  "(resp_success r \<and> resp_response r \<noteq> []
      \<longrightarrow> 1/2 \<le> calculateResponseQuality r \<and> calculateResponseQuality r \<le> 1)
   \<and> (\<not> resp_success r \<or> resp_response r = [] \<longrightarrow> calculateResponseQuality r = 0)
   \<and> (filter isValidResponse rs \<noteq> []
      \<longrightarrow> 0 < totalQuality (sortByScoreDesc q_quality (brainScores (filter isValidResponse rs)))
        \<and> 0 < totalQuality (sortByScoreDesc q_quality (heartScores (filter isValidResponse rs)))
        \<and> 0 < totalQuality (sortByScoreDesc q_quality (systemScores (filter isValidResponse rs))))"
proof -
  let ?valid = "filter isValidResponse rs"
  have brain: "0 < sum_list (map calculateResponseQuality ?valid)" if "?valid \<noteq> []"
    using that
    by (rule sum_list_pos_of_half)
      (use calculateResponseQuality_range isValidResponse_nonempty in auto)
  have heart: "0 < sum_list (map heartQuality ?valid)" if "?valid \<noteq> []"
    using that by (rule sum_list_pos_of_half) (use heartQuality_range in auto)
  have system: "0 < sum_list (map systemQuality ?valid)" if "?valid \<noteq> []"
    using that by (rule sum_list_pos_of_half) (use systemQuality_range in auto)
  show ?thesis
    using calculateResponseQuality_range [of r] calculateResponseQuality_zero [of r]
      brain heart system
    by (simp add: totalQuality_sum_list sum_list_sortByScoreDesc brainScores_def
        heartScores_def systemScores_def comp_def)
qed


theorem quality_range_and_positive_total_witness:
  "resp_success (exampleResponse Slot1 ''Use indexes on foreign keys'' True 700)
   \<and> resp_response (exampleResponse Slot1 ''Use indexes on foreign keys'' True 700) \<noteq> []
   \<and> 1/2 \<le> calculateResponseQuality (exampleResponse Slot1 ''Use indexes on foreign keys'' True 700)
   \<and> calculateResponseQuality (exampleResponse Slot1 ''Use indexes on foreign keys'' True 700) \<le> 1
   \<and> calculateResponseQuality (exampleResponse Slot3 [] False 12) = 0
   \<and> filter isValidResponse goodResponses \<noteq> []
   \<and> 0 < totalQuality (sortByScoreDesc q_quality (brainScores (filter isValidResponse goodResponses)))"
proof -
  have ok: "resp_success (exampleResponse Slot1 ''Use indexes on foreign keys'' True 700)
      \<and> resp_response (exampleResponse Slot1 ''Use indexes on foreign keys'' True 700) \<noteq> []"
    by (simp add: exampleResponse_def)
  have failed: "\<not> resp_success (exampleResponse Slot3 [] False 12)
      \<or> resp_response (exampleResponse Slot3 [] False 12) = []"
    by (simp add: exampleResponse_def)
  have "map isValidResponse goodResponses = [True, True, False]"
    by code_simp
  then have valid: "filter isValidResponse goodResponses \<noteq> []"
    by (simp add: goodResponses_def)
  from ok failed valid
    quality_range_and_positive_total
      [of "exampleResponse Slot1 ''Use indexes on foreign keys'' True 700" goodResponses]
    quality_range_and_positive_total [of "exampleResponse Slot3 [] False 12" goodResponses]
  show ?thesis
    by blast
qed

text \<open>
  C1: when no response of the input has \<open>success = true\<close> and a text that is non-empty after
  trimming, each of the three knowledge algorithms returns (it raises nothing) the result
  with \<open>qualityScore = 0\<close>, its own canned failure answer (a non-empty string of the source)
  and all contribution weights 0.
\<close>

theorem no_valid_response_degrades:
  assumes "\<not> (\<exists>r \<in> set (in_responses input). resp_success r \<and> trim (resp_response r) \<noteq> [])"
  shows "brainKnowledgeAlgorithm input
           = Inr \<lparr>fusedAnswer =
                    ''I apologize, but I was unable to generate a response. Please try again.'',
                  qualityScore = 0, selectedPrimary = Slot1,
                  contributionWeights = \<lparr>model1 = 0, model2 = 0, model3 = 0\<rparr>\<rparr>
       \<and> heartKnowledgeAlgorithm input
           = Inr \<lparr>fusedAnswer = ''// Unable to generate code fix. Please provide more details.'',
                  qualityScore = 0, selectedPrimary = Slot1,
                  contributionWeights = \<lparr>model1 = 0, model2 = 0, model3 = 0\<rparr>\<rparr>
       \<and> systemKnowledgeAlgorithm input
           = Inr \<lparr>fusedAnswer = ''System diagnostic unavailable. Manual inspection recommended.'',
                  qualityScore = 0, selectedPrimary = Slot1,
                  contributionWeights = \<lparr>model1 = 0, model2 = 0, model3 = 0\<rparr>\<rparr>
       \<and> ''I apologize, but I was unable to generate a response. Please try again.'' \<noteq> []
       \<and> ''// Unable to generate code fix. Please provide more details.'' \<noteq> []
       \<and> ''System diagnostic unavailable. Manual inspection recommended.'' \<noteq> []"
proof -
  from assms have "filter isValidResponse (in_responses input) = []"
    by (auto simp: filter_empty_conv isValidResponse_def)
  then show ?thesis
    by (simp add: brainKnowledgeAlgorithm_def heartKnowledgeAlgorithm_def
        systemKnowledgeAlgorithm_def noValidResponses_def)
qed

theorem no_valid_response_degrades_witness:
  "\<not> (\<exists>r \<in> set (in_responses (exampleInput Brain failedResponses)).
         resp_success r \<and> trim (resp_response r) \<noteq> [])
   \<and> brainKnowledgeAlgorithm (exampleInput Brain failedResponses)
       = Inr \<lparr>fusedAnswer =
                ''I apologize, but I was unable to generate a response. Please try again.'',
              qualityScore = 0, selectedPrimary = Slot1,
              contributionWeights = \<lparr>model1 = 0, model2 = 0, model3 = 0\<rparr>\<rparr>
   \<and> heartKnowledgeAlgorithm (exampleInput Brain failedResponses)
       = Inr \<lparr>fusedAnswer = ''// Unable to generate code fix. Please provide more details.'',
              qualityScore = 0, selectedPrimary = Slot1,
              contributionWeights = \<lparr>model1 = 0, model2 = 0, model3 = 0\<rparr>\<rparr>
   \<and> systemKnowledgeAlgorithm (exampleInput Brain failedResponses)
       = Inr \<lparr>fusedAnswer = ''System diagnostic unavailable. Manual inspection recommended.'',
              qualityScore = 0, selectedPrimary = Slot1,
              contributionWeights = \<lparr>model1 = 0, model2 = 0, model3 = 0\<rparr>\<rparr>"
proof -
  have "map (\<lambda>r. resp_success r \<and> trim (resp_response r) \<noteq> []) failedResponses
      = [False, False, False]"
    by code_simp
  then have none: "\<not> (\<exists>r \<in> set (in_responses (exampleInput Brain failedResponses)).
         resp_success r \<and> trim (resp_response r) \<noteq> [])"
    by (simp add: exampleInput_def failedResponses_def)
  from none no_valid_response_degrades [OF none] show ?thesis
    by blast
qed

lemma getWeight_setWeight:
  "getWeight (setWeight w a v) b = (if a = b then v else getWeight w b)"
  by (cases a; cases b) simp_all

lemma weightSum_setWeight:
  "weightSum (setWeight w a v) = weightSum w - getWeight w a + v"
  by (cases a) (simp_all add: weightSum_def)

lemma getWeight_zeroWeights: "getWeight zeroWeights slot = 0"
  by (cases slot) (simp_all add: zeroWeights_def)

lemma calculateWeightsFl_exact: "calculateWeightsFl (\<lambda>x. x) scores = calculateWeights scores"
proof -
  have "weightStepFl (\<lambda>x. x) t = weightStep t" for t
    by (intro ext) (simp add: weightStepFl_def weightStep_def)
  then show ?thesis
    by (simp add: calculateWeightsFl_def calculateWeights_def totalQualityFl_def totalQuality_def)
qed

lemma totalQualityFl_exact: "totalQualityFl (\<lambda>x. x) scores = totalQuality scores"
  by (simp add: totalQualityFl_def totalQuality_def)

lemma doublePrecision_exact: "doublePrecision (\<lambda>x. x)"
  by (simp add: doublePrecision_def)

lemma doublePrecision_roundTo60: "doublePrecision roundTo60"
proof -
  have "\<bar>roundTo60 x - x\<bar> \<le> x / 2^53" if "1/8 \<le> x" for x :: real
  proof -
    define c :: real where "c = 2^60"
    define z where "z = of_int \<lfloor>x * c + 1/2\<rfloor> - x * c"
    have c: "0 < c"
      by (simp add: c_def)
    have z: "\<bar>z\<bar> \<le> 1/2"
      unfolding z_def by linarith
    have "roundTo60 x = (z + x * c) / c"
      by (simp add: roundTo60_def z_def c_def)
    also have "\<dots> = z / c + x"
      using c by (simp add: add_divide_distrib)
    finally have "\<bar>roundTo60 x - x\<bar> = \<bar>z\<bar> / c"
      using c by simp
    also have "\<dots> \<le> (1/2) / c"
      using z by (rule divide_right_mono) (use c in simp)
    also have "\<dots> \<le> x / 2^53"
      using that by (simp add: c_def field_simps)
    finally show ?thesis .
  qed
  then show ?thesis
    by (simp add: doublePrecision_def)
qed

lemma doublePrecision_abs:
  assumes "doublePrecision rnd" and "1/8 \<le> x" and "x \<le> 4"
  shows "\<bar>rnd x - x\<bar> \<le> 4 / 2^53"
proof -
  from assms have "\<bar>rnd x - x\<bar> \<le> x / 2^53"
    by (simp add: doublePrecision_def)
  also from assms(3) have "\<dots> \<le> 4 / 2^53"
    by (simp add: divide_right_mono)
  finally show ?thesis .
qed

text \<open>
  The accumulated sum: \<open>e\<close> bounds the error of one rounding, \<open>A\<close> is the exact sum so far
  and \<open>d\<close> the error of the accumulator \<open>a\<close>.
\<close>

lemma foldl_total_error:
  assumes rnd: "\<And>x. 1/8 \<le> x \<Longrightarrow> x \<le> 4 \<Longrightarrow> \<bar>rnd x - x\<bar> \<le> e"
      and e: "0 \<le> e"
      and qs: "\<And>s. s \<in> set xs \<Longrightarrow> 1/2 \<le> q_quality s \<and> q_quality s \<le> 1"
      and "0 \<le> A" and "A + real (length xs) \<le> 3"
      and "\<bar>a - A\<bar> \<le> d" and "d + e * real (length xs) \<le> 1/4"
  shows "\<bar>foldl (\<lambda>sum s. rnd (sum + q_quality s)) a xs - (A + sum_list (map q_quality xs))\<bar>
           \<le> d + e * real (length xs)"
  using assms(3-)
proof (induction xs arbitrary: a A d)
  case Nil
  then show ?case by simp
next
  case (Cons x xs)
  have q: "1/2 \<le> q_quality x" "q_quality x \<le> 1"
    using Cons.prems(1) [of x] by simp_all
  have len: "real (length (x # xs)) = real (length xs) + 1"
    by simp
  have en: "0 \<le> e * real (length xs)"
    using e by simp
  have bound: "d + e + e * real (length xs) \<le> 1/4"
    using Cons.prems(5) unfolding len by (simp add: distrib_left)
  then have d: "d \<le> 1/4"
    using e en by linarith
  have A: "A \<le> 2"
    using Cons.prems(3) unfolding len by linarith
  have lo: "1/8 \<le> a + q_quality x" and hi: "a + q_quality x \<le> 4"
    using Cons.prems(2,4) q d A by linarith+
  have "\<bar>rnd (a + q_quality x) - (a + q_quality x)\<bar> \<le> e"
    using lo hi by (rule rnd)
  then have step: "\<bar>rnd (a + q_quality x) - (A + q_quality x)\<bar> \<le> d + e"
    using Cons.prems(4) by linarith
  have "\<bar>foldl (\<lambda>sum s. rnd (sum + q_quality s)) (rnd (a + q_quality x)) xs
          - (A + q_quality x + sum_list (map q_quality xs))\<bar>
        \<le> d + e + e * real (length xs)"
  proof (rule Cons.IH)
    show "1/2 \<le> q_quality s \<and> q_quality s \<le> 1" if "s \<in> set xs" for s
      using that Cons.prems(1) by simp
    show "0 \<le> A + q_quality x"
      using Cons.prems(2) q by linarith
    show "A + q_quality x + real (length xs) \<le> 3"
      using Cons.prems(3) q unfolding len by linarith
    show "\<bar>rnd (a + q_quality x) - (A + q_quality x)\<bar> \<le> d + e"
      by (rule step)
    show "d + e + e * real (length xs) \<le> 1/4"
      by (rule bound)
  qed
  then show ?case
    unfolding len by (simp add: distrib_left add.assoc)
qed

lemma sum_list_abs_diff:
  assumes "\<And>x. x \<in> set xs \<Longrightarrow> \<bar>f x - g x\<bar> \<le> (c :: real)"
  shows "\<bar>sum_list (map f xs) - sum_list (map g xs)\<bar> \<le> c * real (length xs)"
  using assms
proof (induction xs)
  case Nil
  then show ?case by simp
next
  case (Cons x xs)
  have "\<bar>f x - g x\<bar> \<le> c"
    using Cons.prems by simp
  moreover have "\<bar>sum_list (map f xs) - sum_list (map g xs)\<bar> \<le> c * real (length xs)"
    using Cons by simp
  ultimately show ?case
    by (simp add: algebra_simps)
qed

lemma ModelSlot_UNIV: "(UNIV :: ModelSlot set) = {Slot1, Slot2, Slot3}"
  using ModelSlot.exhaust by auto

lemma distinct_slots_length:
  fixes f :: "'a \<Rightarrow> ModelSlot"
  assumes "distinct (map f xs)"
  shows "length xs \<le> 3"
proof -
  have fin: "finite (UNIV :: ModelSlot set)"
    by (simp add: ModelSlot_UNIV)
  have "length xs = card (set (map f xs))"
    using assms by (metis distinct_card length_map)
  also have "\<dots> \<le> card (UNIV :: ModelSlot set)"
    using fin by (intro card_mono) simp_all
  also have "\<dots> = 3"
    by (simp add: ModelSlot_UNIV)
  finally show ?thesis .
qed

lemma foldl_weightStepFl_other:
  assumes "slot \<notin> set (map (\<lambda>s. resp_modelSlot (q_response s)) xs)"
  shows "getWeight (foldl (weightStepFl rnd t) w xs) slot = getWeight w slot"
  using assms
  by (induction xs arbitrary: w) (auto simp: weightStepFl_def getWeight_setWeight)

lemma foldl_weightStepFl_member:
  assumes "distinct (map (\<lambda>s. resp_modelSlot (q_response s)) xs)" and "s \<in> set xs" and "0 < t"
  shows "getWeight (foldl (weightStepFl rnd t) w xs) (resp_modelSlot (q_response s))
           = rnd (q_quality s / t)"
  using assms
proof (induction xs arbitrary: w)
  case Nil
  then show ?case by simp
next
  case (Cons x xs)
  show ?case
  proof (cases "s = x")
    case True
    from Cons.prems(1) have "resp_modelSlot (q_response x)
        \<notin> set (map (\<lambda>s. resp_modelSlot (q_response s)) xs)"
      by simp
    then have "getWeight (foldl (weightStepFl rnd t) (weightStepFl rnd t w x) xs)
          (resp_modelSlot (q_response x))
        = getWeight (weightStepFl rnd t w x) (resp_modelSlot (q_response x))"
      by (rule foldl_weightStepFl_other)
    also have "\<dots> = rnd (q_quality x / t)"
      using Cons.prems(3) by (simp add: weightStepFl_def getWeight_setWeight)
    finally show ?thesis
      using True by simp
  next
    case False
    with Cons show ?thesis by simp
  qed
qed

lemma foldl_weightStepFl_sum:
  assumes "distinct (map (\<lambda>s. resp_modelSlot (q_response s)) xs)"
      and "\<And>s. s \<in> set xs \<Longrightarrow> getWeight w (resp_modelSlot (q_response s)) = 0"
      and "0 < t"
  shows "weightSum (foldl (weightStepFl rnd t) w xs)
           = weightSum w + sum_list (map (\<lambda>s. rnd (q_quality s / t)) xs)"
  using assms
proof (induction xs arbitrary: w)
  case Nil
  then show ?case by simp
next
  case (Cons x xs)
  let ?w = "weightStepFl rnd t w x"
  have step: "weightSum ?w = weightSum w + rnd (q_quality x / t)"
    using Cons.prems(2) [of x] Cons.prems(3) by (simp add: weightStepFl_def weightSum_setWeight)
  have zero: "getWeight ?w (resp_modelSlot (q_response s)) = 0" if "s \<in> set xs" for s
  proof -
    from that Cons.prems(1) have "resp_modelSlot (q_response x) \<noteq> resp_modelSlot (q_response s)"
      by auto
    with that Cons.prems(2) [of s] show ?thesis
      by (simp add: weightStepFl_def getWeight_setWeight)
  qed
  from Cons.prems(1) have "distinct (map (\<lambda>s. resp_modelSlot (q_response s)) xs)"
    by simp
  from Cons.IH [OF this zero Cons.prems(3)] step show ?case
    by simp
qed

lemma sum_list_lower:
  assumes "xs \<noteq> []" and "\<And>x. x \<in> set xs \<Longrightarrow> (1/2::real) \<le> g x \<and> g x \<le> 1"
  shows "1/2 \<le> sum_list (map g xs) \<and> sum_list (map g xs) \<le> real (length xs)"
  using assms
proof (induction xs)
  case Nil
  then show ?case by simp
next
  case (Cons x xs)
  have x: "1/2 \<le> g x" "g x \<le> 1"
    using Cons.prems(2) [of x] by simp_all
  show ?case
  proof (cases "xs = []")
    case True
    with x show ?thesis by simp
  next
    case False
    with Cons have "1/2 \<le> sum_list (map g xs) \<and> sum_list (map g xs) \<le> real (length xs)"
      by simp
    with x show ?thesis by simp
  qed
qed

text \<open>
  The weight loop in double precision, on any scores of distinct slots whose qualities lie
  between 0.5 and 1.
\<close>

lemma calculateWeightsFl_tolerance:
  assumes dp: "doublePrecision rnd"
      and ne: "scores \<noteq> []"
      and dist: "distinct (map (\<lambda>s. resp_modelSlot (q_response s)) scores)"
      and qs: "\<And>s. s \<in> set scores \<Longrightarrow> 1/2 \<le> q_quality s \<and> q_quality s \<le> 1"
  shows "\<bar>totalQualityFl rnd scores - sum_list (map q_quality scores)\<bar> \<le> 12 / 2^53
     \<and> \<bar>weightSum (calculateWeightsFl rnd scores) - 1\<bar> \<le> 1 / 10^9
     \<and> (\<forall>s \<in> set scores. getWeight (calculateWeightsFl rnd scores) (resp_modelSlot (q_response s))
           = rnd (q_quality s / totalQualityFl rnd scores))
     \<and> (\<forall>slot. slot \<notin> (\<lambda>s. resp_modelSlot (q_response s)) ` set scores
           \<longrightarrow> getWeight (calculateWeightsFl rnd scores) slot = 0)"
proof -
  define e :: real where "e = 4 / 2^53"
  define T where "T = totalQualityFl rnd scores"
  define S where "S = sum_list (map q_quality scores)"
  define n where "n = real (length scores)"
  have e0: "0 \<le> e" and e3: "3 * e \<le> 1/4" and e15: "15 * e \<le> 1 / 10^9" and e12: "3 * e = 12 / 2^53"
    by (simp_all add: e_def)
  have rnd: "\<bar>rnd x - x\<bar> \<le> e" if "1/8 \<le> x" "x \<le> 4" for x
    unfolding e_def using dp that by (rule doublePrecision_abs)
  have n3: "n \<le> 3"
    unfolding n_def using distinct_slots_length [OF dist] by simp
  have n0: "0 \<le> n"
    by (simp add: n_def)
  have "e * n \<le> e * 3"
    using n3 e0 by (rule mult_left_mono)
  then have en: "e * n \<le> 3 * e"
    by (simp only: mult.commute)
  have "1/2 \<le> sum_list (map q_quality scores)
      \<and> sum_list (map q_quality scores) \<le> real (length scores)"
    using ne qs by (rule sum_list_lower)
  then have S: "1/2 \<le> S" "S \<le> 3"
    using n3 by (simp_all add: S_def n_def)
  have "\<bar>foldl (\<lambda>sum s. rnd (sum + q_quality s)) 0 scores - (0 + sum_list (map q_quality scores))\<bar>
      \<le> 0 + e * real (length scores)"
    using rnd e0 qs
  proof (rule foldl_total_error)
    show "(0::real) \<le> 0" by simp
    show "0 + real (length scores) \<le> 3"
      using n3 by (simp add: n_def)
    show "\<bar>(0::real) - 0\<bar> \<le> 0" by simp
    show "0 + e * real (length scores) \<le> 1/4"
      using en e3 by (simp add: n_def)
  qed
  then have TS: "\<bar>T - S\<bar> \<le> 3 * e"
    using en by (simp add: T_def S_def totalQualityFl_def n_def)
  then have total: "\<bar>totalQualityFl rnd scores - sum_list (map q_quality scores)\<bar> \<le> 12 / 2^53"
    by (simp add: T_def S_def e12)
  have T: "1/4 \<le> T" "T \<le> 4"
    using TS S e3 by linarith+
  then have Tpos: "0 < T"
    by linarith
  have quot: "1/8 \<le> q_quality s / T \<and> q_quality s / T \<le> 4" if "s \<in> set scores" for s
  proof -
    have q: "1/2 \<le> q_quality s" "q_quality s \<le> 1"
      using qs [OF that] by simp_all
    have "T / 8 \<le> q_quality s" and "q_quality s \<le> 4 * T"
      using q T by linarith+
    then show ?thesis
      using Tpos by (simp add: pos_le_divide_eq pos_divide_le_eq mult.commute)
  qed
  have zero: "getWeight zeroWeights (resp_modelSlot (q_response s)) = 0" for s
    by (rule getWeight_zeroWeights)
  have "weightSum (foldl (weightStepFl rnd T) zeroWeights scores)
      = weightSum zeroWeights + sum_list (map (\<lambda>s. rnd (q_quality s / T)) scores)"
    using dist zero Tpos by (rule foldl_weightStepFl_sum)
  then have W: "weightSum (calculateWeightsFl rnd scores)
      = sum_list (map (\<lambda>s. rnd (q_quality s / T)) scores)"
    by (simp add: calculateWeightsFl_def T_def weightSum_def zeroWeights_def)
  have "\<bar>sum_list (map (\<lambda>s. rnd (q_quality s / T)) scores)
        - sum_list (map (\<lambda>s. q_quality s / T) scores)\<bar> \<le> e * real (length scores)"
    by (rule sum_list_abs_diff) (use rnd quot in blast)
  then have d1: "\<bar>sum_list (map (\<lambda>s. rnd (q_quality s / T)) scores)
        - sum_list (map (\<lambda>s. q_quality s / T) scores)\<bar> \<le> 3 * e"
    using en by (simp add: n_def)
  have "sum_list (map (\<lambda>s. q_quality s / T) scores) = S / T"
    unfolding S_def by (induction scores) (simp_all add: add_divide_distrib)
  moreover have "\<bar>S / T - 1\<bar> \<le> 12 * e"
  proof -
    have "S / T - 1 = (S - T) / T"
      using Tpos by (simp add: diff_divide_distrib)
    then have "\<bar>S / T - 1\<bar> = \<bar>T - S\<bar> / T"
      using Tpos by (simp add: abs_minus_commute)
    also have "\<dots> \<le> (3 * e) / T"
      using TS Tpos by (simp add: divide_right_mono)
    also have "\<dots> \<le> (3 * e) / (1/4)"
      using T(1) e0 by (intro divide_left_mono) simp_all
    finally show ?thesis
      by simp
  qed
  ultimately have "\<bar>weightSum (calculateWeightsFl rnd scores) - 1\<bar> \<le> 15 * e"
    using d1 W by linarith
  then have sum: "\<bar>weightSum (calculateWeightsFl rnd scores) - 1\<bar> \<le> 1 / 10^9"
    using e15 by linarith
  have member: "getWeight (calculateWeightsFl rnd scores) (resp_modelSlot (q_response s))
      = rnd (q_quality s / totalQualityFl rnd scores)" if "s \<in> set scores" for s
    using foldl_weightStepFl_member [OF dist that Tpos, of rnd zeroWeights]
    by (simp add: calculateWeightsFl_def T_def)
  have other: "getWeight (calculateWeightsFl rnd scores) slot = 0"
    if "slot \<notin> (\<lambda>s. resp_modelSlot (q_response s)) ` set scores" for slot
    using that
    by (simp add: calculateWeightsFl_def foldl_weightStepFl_other getWeight_zeroWeights)
  from total sum member other show ?thesis
    by blast
qed

lemma rounded_loop_shares:
  assumes "doublePrecision rnd" and "scores \<noteq> []"
      and "distinct (map (\<lambda>s. resp_modelSlot (q_response s)) scores)"
      and "\<forall>s \<in> set scores. 1/2 \<le> q_quality s \<and> q_quality s \<le> 1"
  shows "roundedWeightsAreShares rnd scores (calculateWeightsFl rnd scores)"
proof -
  have qs: "1/2 \<le> q_quality s \<and> q_quality s \<le> 1" if "s \<in> set scores" for s
    using that assms(4) by blast
  from calculateWeightsFl_tolerance [OF assms(1-3) qs] show ?thesis
    by (simp add: roundedWeightsAreShares_def weightSum_def)
qed

lemma variant_weights:
  fixes quality :: "ModelResponse \<Rightarrow> real"
  defines "scored \<equiv> \<lambda>rs. map (\<lambda>r. \<lparr>q_response = r, q_quality = quality r\<rparr>) rs"
  assumes nonempty: "valid \<noteq> []"
      and distinct: "distinct (map resp_modelSlot valid)"
      and range: "\<And>r. r \<in> set valid \<Longrightarrow> 1/2 \<le> quality r \<and> quality r \<le> 1"
  shows "weightsAreShares quality valid
           (calculateWeights (sortByScoreDesc q_quality (scored valid)))"
proof -
  let ?scores = "sortByScoreDesc q_quality (scored valid)"
  let ?slot = "\<lambda>s. resp_modelSlot (q_response s)"
  have set_scores: "set ?scores = (\<lambda>r. \<lparr>q_response = r, q_quality = quality r\<rparr>) ` set valid"
    by (simp add: set_sortByScoreDesc scored_def)
  have ne: "?scores \<noteq> []"
    using nonempty by (simp add: sortByScoreDesc_Nil_iff scored_def)
  have "distinct (map ?slot (scored valid))"
    using distinct by (simp add: scored_def comp_def)
  then have dist: "distinct (map ?slot ?scores)"
    by (simp add: sortByScoreDesc_def distinct_map)
  have qs: "\<forall>s \<in> set ?scores. 1/2 \<le> q_quality s \<and> q_quality s \<le> 1"
    using range by (auto simp: set_scores)
  have total: "totalQualityFl (\<lambda>x. x) ?scores = sum_list (map quality valid)"
    by (simp add: totalQualityFl_exact totalQuality_sum_list sum_list_sortByScoreDesc
        scored_def comp_def)
  have loop: "roundedWeightsAreShares (\<lambda>x. x) ?scores (calculateWeights ?scores)"
    using rounded_loop_shares [OF doublePrecision_exact ne dist qs]
    by (simp add: calculateWeightsFl_exact)
  have sum: "\<bar>model1 (calculateWeights ?scores) + model2 (calculateWeights ?scores)
      + model3 (calculateWeights ?scores) - 1\<bar> \<le> 1 / 10^9"
    using loop by (simp add: roundedWeightsAreShares_def)
  have member: "getWeight (calculateWeights ?scores) (resp_modelSlot r)
      = quality r / sum_list (map quality valid)" if "r \<in> set valid" for r
  proof -
    from that have "\<lparr>q_response = r, q_quality = quality r\<rparr> \<in> set ?scores"
      by (simp add: set_scores)
    with loop show ?thesis
      unfolding roundedWeightsAreShares_def total by fastforce
  qed
  have other: "getWeight (calculateWeights ?scores) slot = 0"
    if "slot \<notin> resp_modelSlot ` set valid" for slot
  proof -
    from that have "slot \<notin> ?slot ` set ?scores"
      by (auto simp: set_scores)
    with loop show ?thesis
      unfolding roundedWeightsAreShares_def by blast
  qed
  from sum member other show ?thesis
    by (simp add: weightsAreShares_def)
qed

text \<open>
  C7, as stated, fails when two valid responses carry the same model slot: the later one
  overwrites the weight of the earlier one and the weights no longer sum to 1. Here two
  equal valid responses of slot 1 leave \<open>model1 = 1/2\<close> and a sum of 1/2.
\<close>

theorem contribution_weights_same_slot_counterexample:
  "map isValidResponse sameSlotResponses = [True, True]
   \<and> brainKnowledgeAlgorithm (exampleInput Brain sameSlotResponses)
     = Inr \<lparr>fusedAnswer = ''Use indexes on foreign keys'', qualityScore = 17/20,
            selectedPrimary = Slot1,
            contributionWeights = \<lparr>model1 = 1/2, model2 = 0, model3 = 0\<rparr>\<rparr>"
  by code_simp

text \<open>
  C7 (amended): when the input holds at least one valid response and the valid responses
  carry pairwise distinct model slots, each knowledge algorithm returns contribution
  weights that sum to 1 within \<open>10\<^sup>-\<^sup>9\<close>, where the slot of each valid response carries its
  quality divided by the total quality of the valid responses and every other slot carries
  0. The same holds of the weight loop when every addition and division is rounded to
  double precision, on any scores of distinct slots whose qualities lie between 0.5 and 1
  (as the qualities of valid responses do): there each weight is the rounded quotient of
  the quality by the rounded total, and the sum stays within \<open>10\<^sup>-\<^sup>9\<close> of 1.
\<close>

theorem contribution_weights_are_quality_shares:
  assumes "filter isValidResponse (in_responses input) \<noteq> []"
      and "distinct (map resp_modelSlot (filter isValidResponse (in_responses input)))"
  shows "(\<exists>out. brainKnowledgeAlgorithm input = Inr out
            \<and> weightsAreShares calculateResponseQuality
                 (filter isValidResponse (in_responses input)) (contributionWeights out))
       \<and> (\<exists>out. heartKnowledgeAlgorithm input = Inr out
            \<and> weightsAreShares heartQuality
                 (filter isValidResponse (in_responses input)) (contributionWeights out))
       \<and> (\<exists>out. systemKnowledgeAlgorithm input = Inr out
            \<and> weightsAreShares systemQuality
                 (filter isValidResponse (in_responses input)) (contributionWeights out))
       \<and> (\<forall>rnd scores.
             doublePrecision rnd \<and> scores \<noteq> []
             \<and> distinct (map (\<lambda>s. resp_modelSlot (q_response s)) scores)
             \<and> (\<forall>s \<in> set scores. 1/2 \<le> q_quality s \<and> q_quality s \<le> 1)
             \<longrightarrow> roundedWeightsAreShares rnd scores (calculateWeightsFl rnd scores))"
proof -
  let ?valid = "filter isValidResponse (in_responses input)"
  have valid: "isValidResponse r" if "r \<in> set ?valid" for r
    using that by simp
  have brange: "1/2 \<le> calculateResponseQuality r \<and> calculateResponseQuality r \<le> 1"
    if "r \<in> set ?valid" for r
    using valid [OF that] calculateResponseQuality_range isValidResponse_nonempty by blast
  have hrange: "1/2 \<le> heartQuality r \<and> heartQuality r \<le> 1" if "r \<in> set ?valid" for r
    using valid [OF that] by (rule heartQuality_range)
  have srange: "1/2 \<le> systemQuality r \<and> systemQuality r \<le> 1" if "r \<in> set ?valid" for r
    using valid [OF that] by (rule systemQuality_range)
  have b: "weightsAreShares calculateResponseQuality ?valid
      (calculateWeights (sortByScoreDesc q_quality (brainScores ?valid)))"
    unfolding brainScores_def using assms(1,2) brange by (rule variant_weights)
  have h: "weightsAreShares heartQuality ?valid
      (calculateWeights (sortByScoreDesc q_quality (heartScores ?valid)))"
    unfolding heartScores_def using assms(1,2) hrange by (rule variant_weights)
  have s: "weightsAreShares systemQuality ?valid
      (calculateWeights (sortByScoreDesc q_quality (systemScores ?valid)))"
    unfolding systemScores_def using assms(1,2) srange by (rule variant_weights)
  have ne: "sortByScoreDesc q_quality (brainScores ?valid) \<noteq> []"
    "sortByScoreDesc q_quality (heartScores ?valid) \<noteq> []"
    "sortByScoreDesc q_quality (systemScores ?valid) \<noteq> []"
    using assms(1)
    by (simp_all add: sortByScoreDesc_Nil_iff brainScores_def heartScores_def systemScores_def)
  have brain: "\<exists>out. brainKnowledgeAlgorithm input = Inr out
      \<and> contributionWeights out = calculateWeights (sortByScoreDesc q_quality (brainScores ?valid))"
    using assms(1) ne(1)
    by (auto simp: brainKnowledgeAlgorithm_def Let_def split: list.splits)
  have heart: "\<exists>out. heartKnowledgeAlgorithm input = Inr out
      \<and> contributionWeights out = calculateWeights (sortByScoreDesc q_quality (heartScores ?valid))"
    using assms(1) ne(2)
    by (auto simp: heartKnowledgeAlgorithm_def Let_def split: list.splits)
  have system: "\<exists>out. systemKnowledgeAlgorithm input = Inr out
      \<and> contributionWeights out = calculateWeights (sortByScoreDesc q_quality (systemScores ?valid))"
    using assms(1) ne(3)
    by (auto simp: systemKnowledgeAlgorithm_def Let_def split: list.splits)
  from brain b have 1: "\<exists>out. brainKnowledgeAlgorithm input = Inr out
      \<and> weightsAreShares calculateResponseQuality ?valid (contributionWeights out)"
    by auto
  from heart h have 2: "\<exists>out. heartKnowledgeAlgorithm input = Inr out
      \<and> weightsAreShares heartQuality ?valid (contributionWeights out)"
    by auto
  from system s have 3: "\<exists>out. systemKnowledgeAlgorithm input = Inr out
      \<and> weightsAreShares systemQuality ?valid (contributionWeights out)"
    by auto
  have 4: "\<forall>rnd scores.
             doublePrecision rnd \<and> scores \<noteq> []
             \<and> distinct (map (\<lambda>s. resp_modelSlot (q_response s)) scores)
             \<and> (\<forall>s \<in> set scores. 1/2 \<le> q_quality s \<and> q_quality s \<le> 1)
             \<longrightarrow> roundedWeightsAreShares rnd scores (calculateWeightsFl rnd scores)"
    using rounded_loop_shares by blast
  from 1 2 3 4 show ?thesis
    by blast
qed

text \<open>
  Three valid responses of the three slots; and three scores under a rounding to 60
  binary digits, where the weights sum to \<open>1 - 2\<^sup>-\<^sup>6\<^sup>0\<close>.
\<close>

theorem contribution_weights_are_quality_shares_witness:
  "filter isValidResponse (in_responses (exampleInput Brain threeResponses)) \<noteq> []
   \<and> distinct (map resp_modelSlot
        (filter isValidResponse (in_responses (exampleInput Brain threeResponses))))
   \<and> (\<exists>out. brainKnowledgeAlgorithm (exampleInput Brain threeResponses) = Inr out
        \<and> \<bar>model1 (contributionWeights out) + model2 (contributionWeights out)
            + model3 (contributionWeights out) - 1\<bar> \<le> 1 / 10^9)
   \<and> doublePrecision roundTo60
   \<and> model1 (calculateWeightsFl roundTo60 doubleScores)
        + model2 (calculateWeightsFl roundTo60 doubleScores)
        + model3 (calculateWeightsFl roundTo60 doubleScores) \<noteq> 1
   \<and> \<bar>model1 (calculateWeightsFl roundTo60 doubleScores)
        + model2 (calculateWeightsFl roundTo60 doubleScores)
        + model3 (calculateWeightsFl roundTo60 doubleScores) - 1\<bar> \<le> 1 / 10^9"
proof -
  have "map isValidResponse threeResponses = [True, True, True]"
    by code_simp
  then have valid: "filter isValidResponse (in_responses (exampleInput Brain threeResponses))
      = threeResponses"
    by (simp add: exampleInput_def threeResponses_def)
  have ne: "filter isValidResponse (in_responses (exampleInput Brain threeResponses)) \<noteq> []"
    unfolding valid by (simp add: threeResponses_def)
  have dist: "distinct (map resp_modelSlot
        (filter isValidResponse (in_responses (exampleInput Brain threeResponses))))"
    unfolding valid by (simp add: threeResponses_def exampleResponse_def)
  have scores: "doubleScores \<noteq> []"
    "distinct (map (\<lambda>s. resp_modelSlot (q_response s)) doubleScores)"
    "\<forall>s \<in> set doubleScores. 1/2 \<le> q_quality s \<and> q_quality s \<le> 1"
    by (simp_all add: doubleScores_def exampleResponse_def)
  have rounded: "model1 (calculateWeightsFl roundTo60 doubleScores)
        + model2 (calculateWeightsFl roundTo60 doubleScores)
        + model3 (calculateWeightsFl roundTo60 doubleScores) \<noteq> 1"
    by code_simp
  from contribution_weights_are_quality_shares [OF ne dist] ne dist doublePrecision_roundTo60 scores rounded
  show ?thesis
    unfolding weightsAreShares_def roundedWeightsAreShares_def by blast
qed


section \<open>Properties of the AI system handler\<close>

lemma ratio_range:
  assumes "0 \<le> x" and "x \<le> y"
  shows "0 \<le> x / y \<and> x / y \<le> (1::real)"
  using assms by (auto simp: divide_le_eq_1)

lemma calculateSimilarity_range:
  "0 \<le> calculateSimilarity a b \<and> calculateSimilarity a b \<le> 1"
proof -
  have "real (length (filter P xs)) \<le> real (max (length xs) n)" for P and xs :: "string list" and n
  proof -
    have "length (filter P xs) \<le> length xs"
      by (rule length_filter_le)
    also have "\<dots> \<le> max (length xs) n"
      by (rule max.cobounded1)
    finally show ?thesis
      by (simp only: of_nat_le_iff)
  qed
  then show ?thesis
    by (simp add: calculateSimilarity_def Let_def ratio_range)
qed

lemma foldl_add_sum_list: "foldl (+) a xs = a + sum_list (xs :: real list)"
  by (induction xs arbitrary: a) simp_all

lemma sum_list_bounds:
  assumes "\<And>x. x \<in> set xs \<Longrightarrow> 0 \<le> x \<and> x \<le> (1::real)"
  shows "0 \<le> sum_list xs \<and> sum_list xs \<le> real (length xs)"
  using assms by (induction xs) (simp_all, force)

lemma pairSimilarities_range:
  "x \<in> set (pairSimilarities rs) \<Longrightarrow> 0 \<le> x \<and> x \<le> 1"
  using calculateSimilarity_range by (auto simp: pairSimilarities_def)

lemma brainCoherence_range:
  "0 \<le> brainCoherence rs \<and> brainCoherence rs \<le> 1"
proof -
  let ?sims = "pairSimilarities rs"
  have "0 \<le> sum_list ?sims \<and> sum_list ?sims \<le> real (length ?sims)"
    by (rule sum_list_bounds) (rule pairSimilarities_range)
  then show ?thesis
    by (simp add: brainCoherence_def Let_def foldl_add_sum_list ratio_range)
qed

lemma heartConsensusBonus_range:
  "0 \<le> heartConsensusBonus rs \<and> heartConsensusBonus rs \<le> 1/10"
  by (simp add: heartConsensusBonus_def Let_def)


lemma sorted_scores_head:
  assumes "sortByScoreDesc q_quality (map (\<lambda>r. \<lparr>q_response = r, q_quality = quality r\<rparr>) valid)
             = primary # rest"
  shows "q_response primary \<in> set valid \<and> q_quality primary = quality (q_response primary)"
proof -
  have "primary \<in> set (sortByScoreDesc q_quality
      (map (\<lambda>r. \<lparr>q_response = r, q_quality = quality r\<rparr>) valid))"
    by (simp add: assms)
  then show ?thesis
    by (auto simp: set_sortByScoreDesc)
qed

lemma brain_output:
  "\<exists>out. brainKnowledgeAlgorithm input = Inr out \<and> fusedAnswer out \<noteq> []
     \<and> 0 \<le> qualityScore out \<and> qualityScore out \<le> 1"
proof (cases "filter isValidResponse (in_responses input) = []")
  case True
  then show ?thesis
    by (simp add: brainKnowledgeAlgorithm_def noValidResponses_def)
next
  case False
  let ?valid = "filter isValidResponse (in_responses input)"
  from False obtain primary rest
    where sorted: "sortByScoreDesc q_quality (brainScores ?valid) = primary # rest"
    by (cases "sortByScoreDesc q_quality (brainScores ?valid)")
      (simp_all add: sortByScoreDesc_Nil_iff brainScores_def)
  then have "q_response primary \<in> set ?valid"
    and q: "q_quality primary = calculateResponseQuality (q_response primary)"
    using sorted_scores_head [of calculateResponseQuality ?valid primary rest]
    by (simp_all add: brainScores_def)
  then have valid: "isValidResponse (q_response primary)"
    by simp
  then have "1/2 \<le> q_quality primary \<and> q_quality primary \<le> 1"
    using calculateResponseQuality_range isValidResponse_nonempty q by simp
  moreover have "resp_response (q_response primary) \<noteq> []"
    using valid isValidResponse_nonempty by blast
  moreover note brainCoherence_range [of ?valid]
  ultimately show ?thesis
    using False sorted by (simp add: brainKnowledgeAlgorithm_def Let_def)
qed

lemma heart_output:
  "\<exists>out. heartKnowledgeAlgorithm input = Inr out \<and> fusedAnswer out \<noteq> []
     \<and> 0 \<le> qualityScore out \<and> qualityScore out \<le> 1"
proof (cases "filter isValidResponse (in_responses input) = []")
  case True
  then show ?thesis
    by (simp add: heartKnowledgeAlgorithm_def noValidResponses_def)
next
  case False
  let ?valid = "filter isValidResponse (in_responses input)"
  from False obtain primary rest
    where sorted: "sortByScoreDesc q_quality (heartScores ?valid) = primary # rest"
    by (cases "sortByScoreDesc q_quality (heartScores ?valid)")
      (simp_all add: sortByScoreDesc_Nil_iff heartScores_def)
  then have "q_response primary \<in> set ?valid"
    and q: "q_quality primary = heartQuality (q_response primary)"
    using sorted_scores_head [of heartQuality ?valid primary rest]
    by (simp_all add: heartScores_def)
  then have valid: "isValidResponse (q_response primary)"
    by simp
  then have "1/2 \<le> q_quality primary \<and> q_quality primary \<le> 1"
    using heartQuality_range q by simp
  moreover have "resp_response (q_response primary) \<noteq> []"
    using valid isValidResponse_nonempty by blast
  moreover note heartConsensusBonus_range [of ?valid]
  ultimately show ?thesis
    using False sorted by (simp add: heartKnowledgeAlgorithm_def Let_def)
qed

lemma system_output:
  "\<exists>out. systemKnowledgeAlgorithm input = Inr out \<and> fusedAnswer out \<noteq> []
     \<and> 0 \<le> qualityScore out \<and> qualityScore out \<le> 1"
proof (cases "filter isValidResponse (in_responses input) = []")
  case True
  then show ?thesis
    by (simp add: systemKnowledgeAlgorithm_def noValidResponses_def)
next
  case False
  let ?valid = "filter isValidResponse (in_responses input)"
  from False obtain primary rest
    where sorted: "sortByScoreDesc q_quality (systemScores ?valid) = primary # rest"
    by (cases "sortByScoreDesc q_quality (systemScores ?valid)")
      (simp_all add: sortByScoreDesc_Nil_iff systemScores_def)
  then have "q_response primary \<in> set ?valid"
    and q: "q_quality primary = systemQuality (q_response primary)"
    using sorted_scores_head [of systemQuality ?valid primary rest]
    by (simp_all add: systemScores_def)
  then have valid: "isValidResponse (q_response primary)"
    by simp
  then have "1/2 \<le> q_quality primary \<and> q_quality primary \<le> 1"
    using systemQuality_range q by simp
  moreover have "resp_response (q_response primary) \<noteq> []"
    using valid isValidResponse_nonempty by blast
  ultimately show ?thesis
    using False sorted by (simp add: systemKnowledgeAlgorithm_def Let_def)
qed

lemma runKnowledgeAlgorithm_output:
  "\<exists>out. runKnowledgeAlgorithm input = Inr out \<and> fusedAnswer out \<noteq> []
     \<and> 0 \<le> qualityScore out \<and> qualityScore out \<le> 1"
  using brain_output heart_output system_output
  by (cases "in_aiType input") (simp_all add: runKnowledgeAlgorithm_def)

lemma getModelConfig_None_iff:
  "getModelConfig hs aiType slot = None \<longleftrightarrow> getOrEmpty (modelConfigCache hs) (aiType, slot) = []"
  by (simp add: getModelConfig_def Let_def split: option.splits list.splits)

lemma executeModel_slot:
  "resp_modelSlot (fst (executeModel client db timing st aiType slot prompt mode config)) = slot"
  by (simp add: executeModel_def Let_def split: prod.splits)

text \<open>
  C4, as stated, fails when the rows of the AI type are present for some slots only: with
  rows for slots 1 and 2 and none for slot 3 the configuration of the AI type is not
  entirely absent, and the call throws all the same.
\<close>

theorem executeAISystem_partial_config_counterexample:
  "selectModelConfigQuery twoSlotsDb
     = Inr [exampleConfigRow Brain Slot1 True, exampleConfigRow Brain Slot2 False]
   \<and> getModelConfig (refreshModelConfig twoSlotsDb (t_config exampleTiming) initialHandlerState)
        Brain Slot1 = Some (configOfRow (exampleConfigRow Brain Slot1 True))
   \<and> fst (executeAISystem placeholderClient twoSlotsDb exampleTiming initialHandlerState
            initialRouterState Brain ''hello'' Professional)
       = Inl (MissingModelConfiguration Brain)"
  by (simp add: executeAISystem_def refreshModelConfig_def getModelConfig_def twoSlotsDb_def
      emptyDb_def exampleTiming_def initialHandlerState_def CONFIG_CACHE_TTL_MS_def
      exampleConfigRow_def configOfRow_def pushAt_def getOrEmpty_def Let_def)

text \<open>
  C4 (amended): \<open>executeAISystem\<close> throws exactly when, after its attempt to refresh the
  configuration cache, the cache holds no configuration row for at least one of the three
  model slots of the requested AI type, and what it throws is the missing-configuration
  error; in every other case, whatever the AI client, the backing store and the loggers
  do, it returns a well-formed result.
\<close>

theorem executeAISystem_throws_iff_config_missing:
  "(if configMissing (refreshModelConfig db (t_config timing) hs0) aiType
    then fst (executeAISystem client db timing hs0 st0 aiType prompt mode)
           = Inl (MissingModelConfiguration aiType)
    else \<exists>result. fst (executeAISystem client db timing hs0 st0 aiType prompt mode) = Inr result
           \<and> wellFormedResult aiType prompt mode result)"
proof (cases "configMissing (refreshModelConfig db (t_config timing) hs0) aiType")
  case True
  then have "getModelConfig (refreshModelConfig db (t_config timing) hs0) aiType Slot1 = None
      \<or> getModelConfig (refreshModelConfig db (t_config timing) hs0) aiType Slot2 = None
      \<or> getModelConfig (refreshModelConfig db (t_config timing) hs0) aiType Slot3 = None"
    by (simp add: configMissing_def getModelConfig_None_iff)
  then have "fst (executeAISystem client db timing hs0 st0 aiType prompt mode)
           = Inl (MissingModelConfiguration aiType)"
    by (auto simp: executeAISystem_def Let_def split: option.splits)
  with True show ?thesis
    by simp
next
  case False
  let ?hs = "refreshModelConfig db (t_config timing) hs0"
  from False obtain c1 c2 c3 where configs:
    "getModelConfig ?hs aiType Slot1 = Some c1"
    "getModelConfig ?hs aiType Slot2 = Some c2"
    "getModelConfig ?hs aiType Slot3 = Some c3"
    using getModelConfig_None_iff [of ?hs aiType]
    by (fastforce simp: configMissing_def)
  obtain r1 st1 where m1: "executeModel client db timing st0 aiType Slot1 prompt mode c1 = (r1, st1)"
    by (cases "executeModel client db timing st0 aiType Slot1 prompt mode c1")
  obtain r2 st2 where m2: "executeModel client db timing st1 aiType Slot2 prompt mode c2 = (r2, st2)"
    by (cases "executeModel client db timing st1 aiType Slot2 prompt mode c2")
  obtain r3 st3 where m3: "executeModel client db timing st2 aiType Slot3 prompt mode c3 = (r3, st3)"
    by (cases "executeModel client db timing st2 aiType Slot3 prompt mode c3")
  have slots: "resp_modelSlot r1 = Slot1" "resp_modelSlot r2 = Slot2" "resp_modelSlot r3 = Slot3"
    using executeModel_slot [of client db timing st0 aiType Slot1 prompt mode c1]
      executeModel_slot [of client db timing st1 aiType Slot2 prompt mode c2]
      executeModel_slot [of client db timing st2 aiType Slot3 prompt mode c3]
    by (simp_all add: m1 m2 m3)
  obtain out where out:
    "runKnowledgeAlgorithm \<lparr>in_aiType = aiType, in_prompt = prompt, in_responses = [r1, r2, r3]\<rparr>
       = Inr out"
    "fusedAnswer out \<noteq> []" "0 \<le> qualityScore out" "qualityScore out \<le> 1"
    using runKnowledgeAlgorithm_output by blast
  have "\<exists>result. fst (executeAISystem client db timing hs0 st0 aiType prompt mode) = Inr result
           \<and> wellFormedResult aiType prompt mode result"
    by (simp add: executeAISystem_def Let_def configs m1 m2 m3 out slots wellFormedResult_def)
  with False show ?thesis
    by simp
qed

theorem executeAISystem_throws_iff_config_missing_witness:
  "fst (executeAISystem placeholderClient emptyDb exampleTiming initialHandlerState
          initialRouterState Heart ''hello'' Standard)
     = Inl (MissingModelConfiguration Heart)
   \<and> (\<exists>result. fst (executeAISystem failingClient threeSlotsDb exampleTiming initialHandlerState
          initialRouterState Brain ''hello'' Standard) = Inr result
        \<and> wellFormedResult Brain ''hello'' Standard result)"
proof -
  have missing: "configMissing
      (refreshModelConfig emptyDb (t_config exampleTiming) initialHandlerState) Heart"
    by (simp add: configMissing_def refreshModelConfig_def emptyDb_def exampleTiming_def
        initialHandlerState_def CONFIG_CACHE_TTL_MS_def getOrEmpty_def)
  have present: "\<not> configMissing
      (refreshModelConfig threeSlotsDb (t_config exampleTiming) initialHandlerState) Brain"
    by (simp add: configMissing_def refreshModelConfig_def threeSlotsDb_def emptyDb_def
        exampleTiming_def initialHandlerState_def CONFIG_CACHE_TTL_MS_def getOrEmpty_def
        pushAt_def exampleConfigRow_def)
  from missing present
    executeAISystem_throws_iff_config_missing [of emptyDb exampleTiming initialHandlerState
      Heart placeholderClient initialRouterState "''hello''" Standard]
    executeAISystem_throws_iff_config_missing [of threeSlotsDb exampleTiming initialHandlerState
      Brain failingClient initialRouterState "''hello''" Standard]
  show ?thesis
    by simp
qed

end
